theory Spec2Isabelle
  imports Complex_Main "HOL-Library.AList"
begin

section \<open>Python values handled by the monitor\<close>

text \<open>
  The bot of \<^verbatim>\<open>main.py\<close> works on the decoded JSON of an HTTP response: \<^verbatim>\<open>None\<close>,
  booleans, numbers, strings, lists and dicts. A dict is an association list read with
  \<open>map_of\<close>; a decoded JSON object has no duplicate key. A number is its numeric value:
  Python's \<^verbatim>\<open>==\<close>, \<^verbatim>\<open>hash\<close> and truth test do not tell \<^verbatim>\<open>1\<close> from \<^verbatim>\<open>1.0\<close>, and the
  literals \<^verbatim>\<open>NaN\<close> and \<^verbatim>\<open>Infinity\<close>, which are not JSON, are left out.
\<close>

datatype json =
    JNull
  | JBool bool
  | JNum rat
  | JStr string
  | JArr "json list"
  | JObj "(string \<times> json) list"

text \<open>The exceptions the code can meet; all of them are subclasses of \<^verbatim>\<open>Exception\<close>.\<close>

datatype exn =
    AttributeError
  | KeyError string
  | TypeError
  | ConfigError
  | ClientError
  | DecodeError
  | DiscordError

text \<open>\<^verbatim>\<open>x.get(k, d)\<close>: only a dict has the method.\<close>

fun py_get :: "json \<Rightarrow> string \<Rightarrow> json \<Rightarrow> exn + json" where
  "py_get (JObj kvs) k d = Inr (case map_of kvs k of None \<Rightarrow> d | Some v \<Rightarrow> v)"
| "py_get _ k d = Inl AttributeError"

text \<open>\<^verbatim>\<open>x[k]\<close> with a string \<open>k\<close>: a missing key of a dict is a \<^verbatim>\<open>KeyError\<close>, any other
  value refuses a string subscript with a \<^verbatim>\<open>TypeError\<close>.\<close>

fun py_getitem :: "json \<Rightarrow> string \<Rightarrow> exn + json" where
  "py_getitem (JObj kvs) k = (case map_of kvs k of None \<Rightarrow> Inl (KeyError k) | Some v \<Rightarrow> Inr v)"
| "py_getitem _ k = Inl TypeError"

text \<open>The truth value of \<^verbatim>\<open>if x:\<close>.\<close>

fun truthy :: "json \<Rightarrow> bool" where
  "truthy JNull = False"
| "truthy (JBool b) = b"
| "truthy (JNum r) = (r \<noteq> 0)"
| "truthy (JStr s) = (s \<noteq> [])"
| "truthy (JArr xs) = (xs \<noteq> [])"
| "truthy (JObj kvs) = (kvs \<noteq> [])"

text \<open>\<^verbatim>\<open>for x in v\<close>: a list gives its elements, a string its characters, a dict its
  keys; nothing else is iterable.\<close>

fun py_iter :: "json \<Rightarrow> exn + json list" where
  "py_iter (JArr xs) = Inr xs"
| "py_iter (JStr s) = Inr (map (\<lambda>c. JStr [c]) s)"
| "py_iter (JObj kvs) = Inr (map (\<lambda>kv. JStr (fst kv)) kvs)"
| "py_iter _ = Inl TypeError"

text \<open>
  The keys of the dict \<^verbatim>\<open>tracked_games\<close>. A key is what \<^verbatim>\<open>hash\<close> and \<^verbatim>\<open>==\<close> see of a
  value: \<^verbatim>\<open>True == 1\<close> and \<^verbatim>\<open>False == 0\<close>, and lists and dicts are unhashable.
\<close>

datatype key = KNone | KNum rat | KStr string

fun py_hash :: "json \<Rightarrow> exn + key" where
  "py_hash JNull = Inr KNone"
| "py_hash (JBool b) = Inr (KNum (if b then 1 else 0))"
| "py_hash (JNum r) = Inr (KNum r)"
| "py_hash (JStr s) = Inr (KStr s)"
| "py_hash (JArr xs) = Inl TypeError"
| "py_hash (JObj kvs) = Inl TypeError"

section \<open>The bot's state and its surroundings\<close>

text \<open>
  The message built by \<^verbatim>\<open>send_game_alert\<close>. Titles and field texts are the source's
  without their emoji and markdown decoration.
\<close>

record embed =
  embed_title :: string
  embed_description :: json
  embed_color :: nat
  embed_timestamp :: nat
  embed_fields :: "(string \<times> string) list"
  embed_footer :: nat
  embed_thumbnail :: "json option"

text \<open>
  What the bot does to the outside, in order. \<open>Alert\<close> records a call of
  \<^verbatim>\<open>send_game_alert\<close>, \<open>Sent\<close> a message that \<^verbatim>\<open>channel.send\<close> delivered.
\<close>

datatype event =
    Log_error string "exn option"
  | Log_info string "json option"
  | Http_get string
  | Sleep nat
  | Alert json string
  | Sent embed

text \<open>\<^verbatim>\<open>self.tracked_games\<close> is a dict in insertion order; \<open>tick\<close> counts the questions
  put to the surroundings so far.\<close>

record state =
  tracked_games :: "(key \<times> nat) list"
  events :: "event list"
  tick :: nat

datatype response = Response (status: nat) (body: "json option")

text \<open>
  The surroundings answer the \<open>n\<close>-th question: the clock, the configured channel
  (\<^verbatim>\<open>int(os.getenv('DISCORD_CHANNEL_ID'))\<close>, \<open>None\<close> where it raises), the cache of channels,
  the delivery of a message (\<open>False\<close> where \<^verbatim>\<open>channel.send\<close> raises) and an HTTP request
  (\<open>None\<close> where the request raises; a response whose \<^verbatim>\<open>json()\<close> raises has no body).
\<close>

record env =
  datetime_now :: "nat \<Rightarrow> nat"
  getenv_channel_id :: "nat \<Rightarrow> int option"
  get_channel :: "nat \<Rightarrow> int \<Rightarrow> bool"
  channel_send :: "nat \<Rightarrow> embed \<Rightarrow> bool"
  session_get :: "nat \<Rightarrow> string \<Rightarrow> response option"

record platform =
  name :: string
  url :: string
  color :: nat

definition epic_url :: string where
  "epic_url = ''https://store-site-backend-static-ipv4.ak.epicgames.com/freeGamesPromotions?locale=tr''"

definition steam_url :: string where
  "steam_url = ''https://store.steampowered.com/api/featuredcategories''"

text \<open>\<^verbatim>\<open>self.platforms\<close>, lines 48 to 59.\<close>

definition platforms :: "(string \<times> platform) list" where
  "platforms =
     [(''epic_games'', \<lparr>name = ''Epic Games Store'', url = epic_url, color = 0x2E64FE\<rparr>),
      (''steam'', \<lparr>name = ''Steam'', url = steam_url, color = 0x1B2838\<rparr>)]"

text \<open>\<^verbatim>\<open>self.platforms[p]\<close>\<close>

definition platforms_getitem :: "string \<Rightarrow> exn + platform" where
  "platforms_getitem p = (case map_of platforms p of None \<Rightarrow> Inl (KeyError p) | Some info \<Rightarrow> Inr info)"

definition init :: state where
  "init = \<lparr>tracked_games = [], events = [], tick = 0\<rparr>"

section \<open>Statements that may raise\<close>

text \<open>
  A statement runs from a state to a result and a state. An exception is the result
  \<open>Inl\<close>; what the statement did before raising stays done.
\<close>

type_synonym 'a py = "state \<Rightarrow> (exn + 'a) \<times> state"

definition py_return :: "'a \<Rightarrow> 'a py" where
  "py_return x = (\<lambda>s. (Inr x, s))"

definition py_raise :: "exn \<Rightarrow> 'a py" where
  "py_raise e = (\<lambda>s. (Inl e, s))"

definition py_lift :: "exn + 'a \<Rightarrow> 'a py" where
  "py_lift r = (\<lambda>s. (r, s))"

definition py_bind :: "'a py \<Rightarrow> ('a \<Rightarrow> 'b py) \<Rightarrow> 'b py" where
  "py_bind m f = (\<lambda>s. case m s of (Inl e, s') \<Rightarrow> (Inl e, s') | (Inr x, s') \<Rightarrow> f x s')"

text \<open>\<^verbatim>\<open>try: m  except Exception as e: h e\<close>\<close>

definition py_try :: "'a py \<Rightarrow> (exn \<Rightarrow> 'a py) \<Rightarrow> 'a py" where
  "py_try m h = (\<lambda>s. case m s of (Inl e, s') \<Rightarrow> h e s' | (Inr x, s') \<Rightarrow> (Inr x, s'))"

definition py_gets :: "(state \<Rightarrow> 'a) \<Rightarrow> 'a py" where
  "py_gets f = (\<lambda>s. (Inr (f s), s))"

definition emit :: "event \<Rightarrow> unit py" where
  "emit ev = (\<lambda>s. (Inr (), s\<lparr>events := events s @ [ev]\<rparr>))"

text \<open>A question to the surroundings reads the answer at the current tick and advances it.\<close>

definition ask :: "(nat \<Rightarrow> 'a) \<Rightarrow> 'a py" where
  "ask oracle = (\<lambda>s. (Inr (oracle (tick s)), s\<lparr>tick := Suc (tick s)\<rparr>))"

text \<open>\<^verbatim>\<open>for x in xs: f x\<close>: the loop ends at the first exception that leaves \<open>f\<close>.\<close>

fun py_for :: "'a list \<Rightarrow> ('a \<Rightarrow> unit py) \<Rightarrow> unit py" where
  "py_for [] f = py_return ()"
| "py_for (x # xs) f = py_bind (f x) (\<lambda>_. py_for xs f)"

section \<open>The free-game test\<close>

text \<open>Lines 137 and 138: the value the test looks at.\<close>

definition promotional_offers :: "json \<Rightarrow> exn + json" where
  "promotional_offers game_data =
     (case py_get game_data ''promotions'' (JObj []) of
        Inl e \<Rightarrow> Inl e
      | Inr promotions \<Rightarrow> py_get promotions ''promotionalOffers'' (JArr []))"

text \<open>\<^verbatim>\<open>is_game_free\<close>, lines 134 to 147.\<close>

definition is_game_free :: "json \<Rightarrow> bool py" where
  "is_game_free game_data =
     py_try
       (py_bind (py_lift (promotional_offers game_data)) (\<lambda>offers.
        if truthy offers then py_return True else py_return False))
       (\<lambda>e. py_bind (emit (Log_error ''Free check error'' (Some e))) (\<lambda>_. py_return False))"

section \<open>The alert\<close>

text \<open>Lines 195 to 199: the first image of type \<^verbatim>\<open>Thumbnail\<close>, if any.\<close>

fun key_images_loop :: "json list \<Rightarrow> exn + json option" where
  "key_images_loop [] = Inr None"
| "key_images_loop (img # imgs) =
     (case py_get img ''type'' JNull of
        Inl e \<Rightarrow> Inl e
      | Inr t \<Rightarrow>
          if t = JStr ''Thumbnail''
          then (case py_getitem img ''url'' of Inl e \<Rightarrow> Inl e | Inr u \<Rightarrow> Inr (Some u))
          else key_images_loop imgs)"

definition thumbnail_of :: "json \<Rightarrow> exn + json option" where
  "thumbnail_of game_data =
     (case py_get game_data ''keyImages'' JNull of
        Inl e \<Rightarrow> Inl e
      | Inr imgs \<Rightarrow>
          if truthy imgs
          then (case py_getitem game_data ''keyImages'' of
                  Inl e \<Rightarrow> Inl e
                | Inr v \<Rightarrow> (case py_iter v of Inl e \<Rightarrow> Inl e | Inr images \<Rightarrow> key_images_loop images))
          else Inr None)"

text \<open>\<^verbatim>\<open>send_game_alert\<close>, lines 149 to 205.\<close>

definition send_game_alert :: "env \<Rightarrow> json \<Rightarrow> string \<Rightarrow> unit py" where
  "send_game_alert world game_data platform =
     py_bind (emit (Alert game_data platform)) (\<lambda>_.
     py_try
       (py_bind (ask (getenv_channel_id world)) (\<lambda>cid.
        case cid of
          None \<Rightarrow> py_raise ConfigError
        | Some channel_id \<Rightarrow>
            py_bind (ask (\<lambda>n. get_channel world n channel_id)) (\<lambda>channel.
            if \<not> channel then emit (Log_error ''Channel not found'' None)
            else
              py_bind (py_lift (platforms_getitem platform)) (\<lambda>platform_info.
              py_bind (py_lift (py_get game_data ''title'' (JStr ''Unknown Game''))) (\<lambda>title.
              py_bind (ask (datetime_now world)) (\<lambda>now.
              py_bind (py_gets (\<lambda>s. length (tracked_games s))) (\<lambda>tracked.
              py_bind (py_lift (thumbnail_of game_data)) (\<lambda>thumbnail.
              py_bind (ask (\<lambda>n. channel_send world n
                  \<lparr>embed_title = ''FREE GAME ALERT - '' @ name platform_info,
                   embed_description = title,
                   embed_color = color platform_info,
                   embed_timestamp = now,
                   embed_fields =
                     [(''Price'', ''FREE''),
                      (''Duration'', ''Limited Time Offer''),
                      (''Platform'', name platform_info)],
                   embed_footer = tracked,
                   embed_thumbnail = thumbnail\<rparr>)) (\<lambda>delivered.
              if \<not> delivered then py_raise DiscordError
              else
                py_bind (emit (Sent
                  \<lparr>embed_title = ''FREE GAME ALERT - '' @ name platform_info,
                   embed_description = title,
                   embed_color = color platform_info,
                   embed_timestamp = now,
                   embed_fields =
                     [(''Price'', ''FREE''),
                      (''Duration'', ''Limited Time Offer''),
                      (''Platform'', name platform_info)],
                   embed_footer = tracked,
                   embed_thumbnail = thumbnail\<rparr>)) (\<lambda>_.
                py_bind (py_lift (py_get game_data ''title'' JNull)) (\<lambda>t.
                emit (Log_info ''Alert sent'' (Some t)))))))))))))
       (\<lambda>e. emit (Log_error ''Alert sending error'' (Some e))))"

section \<open>One catalog record\<close>

text \<open>\<^verbatim>\<open>game_id not in self.tracked_games\<close>: the key is hashed first.\<close>

definition not_in_tracked_games :: "json \<Rightarrow> bool py" where
  "not_in_tracked_games game_id =
     py_bind (py_lift (py_hash game_id)) (\<lambda>k.
     py_gets (\<lambda>s. k \<notin> set (map fst (tracked_games s))))"

text \<open>\<^verbatim>\<open>self.tracked_games[game_id] = datetime.now()\<close>: the right-hand side is evaluated
  first; a key already there keeps its place, a new one goes to the end.\<close>

definition tracked_games_setitem :: "env \<Rightarrow> json \<Rightarrow> unit py" where
  "tracked_games_setitem world game_id =
     py_bind (ask (datetime_now world)) (\<lambda>now.
     py_bind (py_lift (py_hash game_id)) (\<lambda>k.
     (\<lambda>s. (Inr (), s\<lparr>tracked_games := AList.update k now (tracked_games s)\<rparr>))))"

text \<open>\<^verbatim>\<open>process_game_data\<close>, lines 119 to 132. \<^verbatim>\<open>and\<close> evaluates its right operand only
  when the left one is true.\<close>

definition process_game_data :: "env \<Rightarrow> json \<Rightarrow> string \<Rightarrow> unit py" where
  "process_game_data world game_data platform =
     py_try
       (py_bind (py_lift (py_get game_data ''id'' JNull)) (\<lambda>game_id.
        py_bind (py_lift (py_get game_data ''title'' (JStr ''Unknown Game''))) (\<lambda>game_title.
        py_bind (is_game_free game_data) (\<lambda>free.
        py_bind (if free then not_in_tracked_games game_id else py_return False) (\<lambda>is_new.
        if is_new then
          py_bind (tracked_games_setitem world game_id) (\<lambda>_.
          py_bind (send_game_alert world game_data platform) (\<lambda>_.
          emit (Log_info ''New free game detected'' (Some game_title))))
        else py_return ())))))
       (\<lambda>e. emit (Log_error ''Game processing error'' (Some e)))"

section \<open>The two sources and the monitoring task\<close>

text \<open>Line 99: \<^verbatim>\<open>data['data']['Catalog']['searchStore']['elements']\<close>\<close>

definition elements_of :: "json \<Rightarrow> exn + json" where
  "elements_of data =
     (case py_getitem data ''data'' of Inl e \<Rightarrow> Inl e | Inr d \<Rightarrow>
     (case py_getitem d ''Catalog'' of Inl e \<Rightarrow> Inl e | Inr c \<Rightarrow>
     (case py_getitem c ''searchStore'' of Inl e \<Rightarrow> Inl e | Inr st \<Rightarrow>
      py_getitem st ''elements'')))"

text \<open>\<^verbatim>\<open>self.session.get(self.platforms[p]['url'])\<close>: the request is recorded, then
  answered.\<close>

definition session_get_platform :: "env \<Rightarrow> string \<Rightarrow> response py" where
  "session_get_platform world p =
     py_bind (py_lift (platforms_getitem p)) (\<lambda>info.
     py_bind (emit (Http_get (url info))) (\<lambda>_.
     py_bind (ask (\<lambda>n. session_get world n (url info))) (\<lambda>r.
     case r of None \<Rightarrow> py_raise ClientError | Some response \<Rightarrow> py_return response)))"

text \<open>\<^verbatim>\<open>await response.json()\<close>\<close>

definition response_json :: "response \<Rightarrow> json py" where
  "response_json response =
     (case body response of None \<Rightarrow> py_raise DecodeError | Some data \<Rightarrow> py_return data)"

text \<open>\<^verbatim>\<open>check_epic_games\<close>, lines 93 to 105.\<close>

definition check_epic_games :: "env \<Rightarrow> unit py" where
  "check_epic_games world =
     py_try
       (py_bind (session_get_platform world ''epic_games'') (\<lambda>response.
        if status response = 200 then
          py_bind (response_json response) (\<lambda>data.
          py_bind (py_lift (elements_of data)) (\<lambda>games.
          py_bind (py_lift (py_iter games)) (\<lambda>records.
          py_for records (\<lambda>game. process_game_data world game ''epic_games''))))
        else py_return ()))
       (\<lambda>e. emit (Log_error ''Epic Games API error'' (Some e)))"

text \<open>\<^verbatim>\<open>check_steam_games\<close>, lines 107 to 117.\<close>

definition check_steam_games :: "env \<Rightarrow> unit py" where
  "check_steam_games world =
     py_try
       (py_bind (session_get_platform world ''steam'') (\<lambda>response.
        if status response = 200 then
          py_bind (response_json response) (\<lambda>data.
          emit (Log_info ''Steam store analysis completed'' None))
        else py_return ()))
       (\<lambda>e. emit (Log_error ''Steam API error'' (Some e)))"

text \<open>\<^verbatim>\<open>monitor_games\<close>, lines 76 to 85: one firing of the task.\<close>

definition monitor_games :: "env \<Rightarrow> unit py" where
  "monitor_games world =
     py_try
       (py_bind (check_epic_games world) (\<lambda>_.
        py_bind (emit (Sleep 15)) (\<lambda>_.
        check_steam_games world)))
       (\<lambda>e. emit (Log_error ''Monitoring error'' (Some e)))"


section \<open>What an observer sees\<close>

fun alert_of :: "event \<Rightarrow> (json \<times> string) list" where
  "alert_of (Alert g p) = [(g, p)]"
| "alert_of _ = []"

fun sent_of :: "event \<Rightarrow> embed list" where
  "sent_of (Sent m) = [m]"
| "sent_of _ = []"

fun request_of :: "event \<Rightarrow> string list" where
  "request_of (Http_get u) = [u]"
| "request_of _ = []"

fun error_of :: "event \<Rightarrow> (string \<times> exn option) list" where
  "error_of (Log_error m e) = [(m, e)]"
| "error_of _ = []"

text \<open>The calls of \<^verbatim>\<open>send_game_alert\<close>, the messages delivered, the requests made and
  the errors logged so far.\<close>

definition alerts :: "state \<Rightarrow> (json \<times> string) list" where
  "alerts s = concat (map alert_of (events s))"

definition sent :: "state \<Rightarrow> embed list" where
  "sent s = concat (map sent_of (events s))"

definition requests :: "state \<Rightarrow> string list" where
  "requests s = concat (map request_of (events s))"

definition errors :: "state \<Rightarrow> (string \<times> exn option) list" where
  "errors s = concat (map error_of (events s))"

section \<open>Inputs of the scenarios\<close>

text \<open>Surroundings in which everything works, with one fixed answer to every request.\<close>

definition friendly :: "response option \<Rightarrow> env" where
  "friendly r =
     \<lparr>datetime_now = (\<lambda>n. n),
      getenv_channel_id = (\<lambda>n. Some 42),
      get_channel = (\<lambda>n c. True),
      channel_send = (\<lambda>n m. True),
      session_get = (\<lambda>n u. r)\<rparr>"

text \<open>A record with one promotional offer, as the Epic catalog writes it.\<close>

definition free_game :: "string \<Rightarrow> json" where
  "free_game i =
     JObj [(''id'', JStr i), (''promotions'', JObj [(''promotionalOffers'', JArr [JObj []])])]"

text \<open>Another record of the same id: another title, another offer.\<close>

definition other_free_game :: "string \<Rightarrow> json" where
  "other_free_game i =
     JObj [(''id'', JStr i), (''title'', JStr ''Other''),
           (''promotions'', JObj [(''promotionalOffers'', JArr [JBool True])])]"

text \<open>A record with an offer and no \<^verbatim>\<open>id\<close>.\<close>

definition nameless_free_game :: json where
  "nameless_free_game = JObj [(''promotions'', JObj [(''promotionalOffers'', JArr [JObj []])])]"

text \<open>Scenario D: the id \<^verbatim>\<open>A1\<close> is reported free for Epic, then for Steam.\<close>

definition scenario_D :: state where
  "scenario_D =
     snd (process_game_data (friendly None) (other_free_game ''A1'') ''steam''
       (snd (process_game_data (friendly None) (free_game ''A1'') ''epic_games'' init)))"

text \<open>
  The ways a fetch from Epic fails: the request raises, the status is not 200, the body
  is not JSON, the path to the records is absent, or what stands there is not a list.
\<close>

definition fetch_fails :: "response option \<Rightarrow> bool" where
  "fetch_fails answer =
     (case answer of
        None \<Rightarrow> True
      | Some r \<Rightarrow>
          status r \<noteq> 200 \<or>
          (case body r of
             None \<Rightarrow> True
           | Some d \<Rightarrow>
               (case elements_of d of
                  Inl e \<Rightarrow> True
                | Inr v \<Rightarrow> (case v of JArr xs \<Rightarrow> False | _ \<Rightarrow> True))))"

text \<open>A response body with \<open>v\<close> where the records are looked for.\<close>

definition catalog :: "json \<Rightarrow> json" where
  "catalog v = JObj [(''data'', JObj [(''Catalog'', JObj [(''searchStore'', JObj [(''elements'', v)])])])]"

text \<open>A record with an offer whose id is a list, which cannot be a key of a dict.\<close>

definition unhashable_free_game :: json where
  "unhashable_free_game =
     JObj [(''id'', JArr [JStr ''A1'']),
           (''promotions'', JObj [(''promotionalOffers'', JArr [JObj []])])]"

text \<open>A record whose list of offers is empty.\<close>

definition no_offer_game :: "string \<Rightarrow> json" where
  "no_offer_game i =
     JObj [(''id'', JStr i), (''promotions'', JObj [(''promotionalOffers'', JArr [])])]"

text \<open>The two records of scenario A as the specification writes them, with the key
  \<^verbatim>\<open>offers\<close>.\<close>

definition spec_free_game :: "string \<Rightarrow> json" where
  "spec_free_game i =
     JObj [(''id'', JStr i), (''promotions'', JObj [(''offers'', JArr [JObj []])])]"

definition spec_no_offer_game :: "string \<Rightarrow> json" where
  "spec_no_offer_game i =
     JObj [(''id'', JStr i), (''promotions'', JObj [(''offers'', JArr [])])]"

text \<open>Surroundings where the channel is not found and every request raises.\<close>

definition no_channel :: env where
  "no_channel =
     \<lparr>datetime_now = (\<lambda>n. n),
      getenv_channel_id = (\<lambda>n. Some 42),
      get_channel = (\<lambda>n c. False),
      channel_send = (\<lambda>n m. True),
      session_get = (\<lambda>n u. None)\<rparr>"

text \<open>Surroundings where everything works and every request is answered with the
  records \<open>gs\<close>.\<close>

definition catalog_world :: "json list \<Rightarrow> env" where
  "catalog_world gs = friendly (Some (Response 200 (Some (catalog (JArr gs)))))"

section \<open>Running the statements\<close>

lemmas run_defs = py_return_def py_raise_def py_lift_def py_bind_def py_try_def py_gets_def
  emit_def ask_def

lemma alerts_simps:
  "alerts (s\<lparr>events := es\<rparr>) = concat (map alert_of es)"
  "alerts (s\<lparr>tick := n\<rparr>) = alerts s"
  "alerts (s\<lparr>tracked_games := d\<rparr>) = alerts s"
  by (simp_all add: alerts_def)

lemma sent_simps:
  "sent (s\<lparr>events := es\<rparr>) = concat (map sent_of es)"
  "sent (s\<lparr>tick := n\<rparr>) = sent s"
  "sent (s\<lparr>tracked_games := d\<rparr>) = sent s"
  by (simp_all add: sent_def)

lemma requests_simps:
  "requests (s\<lparr>events := es\<rparr>) = concat (map request_of es)"
  "requests (s\<lparr>tick := n\<rparr>) = requests s"
  "requests (s\<lparr>tracked_games := d\<rparr>) = requests s"
  by (simp_all add: requests_def)

lemma is_game_free_run:
  "is_game_free g s =
     (case promotional_offers g of
        Inl e \<Rightarrow> (Inr False, s\<lparr>events := events s @ [Log_error ''Free check error'' (Some e)]\<rparr>)
      | Inr v \<Rightarrow> (Inr (truthy v), s))"
  by (simp add: is_game_free_def run_defs split: sum.splits)

lemma send_game_alert_total: "fst (send_game_alert w g p s) = Inr ()"
  by (simp add: send_game_alert_def run_defs split: sum.splits option.splits prod.splits)

lemma send_game_alert_tracked: "tracked_games (snd (send_game_alert w g p s)) = tracked_games s"
  by (simp add: send_game_alert_def run_defs split: sum.splits option.splits prod.splits)

lemma send_game_alert_alerts: "alerts (snd (send_game_alert w g p s)) = alerts s @ [(g, p)]"
  by (simp add: send_game_alert_def run_defs alerts_def split: sum.splits option.splits prod.splits)

lemma send_game_alert_requests: "requests (snd (send_game_alert w g p s)) = requests s"
  by (simp add: send_game_alert_def run_defs requests_def split: sum.splits option.splits prod.splits)

lemma send_game_alert_sent:
  "sent (snd (send_game_alert w g p s)) = sent s \<or> (\<exists>m. sent (snd (send_game_alert w g p s)) = sent s @ [m])"
  by (simp add: send_game_alert_def run_defs sent_def split: sum.splits option.splits prod.splits)

lemma send_game_alert_cases:
  obtains s' where "send_game_alert w g p s = (Inr (), s')"
    and "tracked_games s' = tracked_games s"
    and "alerts s' = alerts s @ [(g, p)]"
    and "requests s' = requests s"
    and "sent s' = sent s \<or> (\<exists>m. sent s' = sent s @ [m])"
proof -
  obtain r s' where eq: "send_game_alert w g p s = (r, s')"
    by (cases "send_game_alert w g p s")
  have "r = Inr ()"
    using send_game_alert_total [of w g p s] eq by simp
  moreover have "tracked_games s' = tracked_games s"
    using send_game_alert_tracked [of w g p s] eq by simp
  moreover have "alerts s' = alerts s @ [(g, p)]"
    using send_game_alert_alerts [of w g p s] eq by simp
  moreover have "requests s' = requests s"
    using send_game_alert_requests [of w g p s] eq by simp
  moreover have "sent s' = sent s \<or> (\<exists>m. sent s' = sent s @ [m])"
    using send_game_alert_sent [of w g p s] eq by simp
  ultimately show ?thesis
    using that eq by blast
qed

lemma update_fresh: "k \<notin> set (map fst al) \<Longrightarrow> AList.update k v al = al @ [(k, v)]"
  by (induction al) auto

lemma process_game_data_total: "fst (process_game_data w g p s) = Inr ()"
  by (simp add: process_game_data_def run_defs split: sum.splits prod.splits)

lemma process_game_data_new:
  assumes "promotional_offers g = Inr v" and "truthy v"
    and "py_get g ''id'' JNull = Inr i" and "py_hash i = Inr k"
    and "k \<notin> set (map fst (tracked_games s))"
  shows "tracked_games (snd (process_game_data w g p s)) =
           tracked_games s @ [(k, datetime_now w (tick s))]"
    and "alerts (snd (process_game_data w g p s)) = alerts s @ [(g, p)]"
    and "requests (snd (process_game_data w g p s)) = requests s"
proof -
  obtain kvs where g: "g = JObj kvs"
    using assms(3) by (cases g) simp_all
  define s1 where "s1 = s\<lparr>tick := Suc (tick s),
    tracked_games := AList.update k (datetime_now w (tick s)) (tracked_games s)\<rparr>"
  obtain s2 where s2: "send_game_alert w g p s1 = (Inr (), s2)"
    "tracked_games s2 = tracked_games s1" "alerts s2 = alerts s1 @ [(g, p)]"
    "requests s2 = requests s1"
    by (rule send_game_alert_cases [of w g p s1]) blast
  have run: "process_game_data w g p s =
    (Inr (), s2\<lparr>events := events s2 @
       [Log_info ''New free game detected''
         (Some (case map_of kvs ''title'' of None \<Rightarrow> JStr ''Unknown Game'' | Some t \<Rightarrow> t))]\<rparr>)"
    using assms s2(1) unfolding s1_def g
    by (simp add: process_game_data_def not_in_tracked_games_def tracked_games_setitem_def
        is_game_free_run run_defs)
  show "tracked_games (snd (process_game_data w g p s)) =
           tracked_games s @ [(k, datetime_now w (tick s))]"
    using run s2(2) assms(5) by (simp add: s1_def update_fresh)
  show "alerts (snd (process_game_data w g p s)) = alerts s @ [(g, p)]"
    using run s2(3) by (simp add: s1_def alerts_def)
  show "requests (snd (process_game_data w g p s)) = requests s"
    using run s2(4) by (simp add: s1_def requests_def)
qed

lemma process_game_data_old:
  assumes "\<not> (\<exists>v i k. promotional_offers g = Inr v \<and> truthy v \<and>
             py_get g ''id'' JNull = Inr i \<and> py_hash i = Inr k \<and>
             k \<notin> set (map fst (tracked_games s)))"
  shows "tracked_games (snd (process_game_data w g p s)) = tracked_games s"
    and "alerts (snd (process_game_data w g p s)) = alerts s"
    and "sent (snd (process_game_data w g p s)) = sent s"
    and "requests (snd (process_game_data w g p s)) = requests s"
  using assms
  by (auto simp add: process_game_data_def not_in_tracked_games_def
      is_game_free_run run_defs alerts_def sent_def requests_def split: sum.splits prod.splits)

lemma process_game_data_cases:
  obtains s' where "process_game_data w g p s = (Inr (), s')"
  using process_game_data_total [of w g p s]
  by (cases "process_game_data w g p s") auto

lemma process_game_data_keys:
  "set (map fst (tracked_games s)) \<subseteq> set (map fst (tracked_games (snd (process_game_data w g p s))))"
proof (cases "\<exists>v i k. promotional_offers g = Inr v \<and> truthy v \<and>
             py_get g ''id'' JNull = Inr i \<and> py_hash i = Inr k \<and>
             k \<notin> set (map fst (tracked_games s))")
  case True
  then obtain v i k where "promotional_offers g = Inr v" "truthy v"
    "py_get g ''id'' JNull = Inr i" "py_hash i = Inr k" "k \<notin> set (map fst (tracked_games s))"
    by blast
  from process_game_data_new(1) [OF this, of w p] show ?thesis
    by auto
next
  case False
  from process_game_data_old(1) [OF this, of w p] show ?thesis
    by simp
qed

lemma process_game_data_requests:
  "requests (snd (process_game_data w g p s)) = requests s"
proof (cases "\<exists>v i k. promotional_offers g = Inr v \<and> truthy v \<and>
             py_get g ''id'' JNull = Inr i \<and> py_hash i = Inr k \<and>
             k \<notin> set (map fst (tracked_games s))")
  case True
  then obtain v i k where "promotional_offers g = Inr v" "truthy v"
    "py_get g ''id'' JNull = Inr i" "py_hash i = Inr k" "k \<notin> set (map fst (tracked_games s))"
    by blast
  from process_game_data_new(3) [OF this, of w p] show ?thesis .
next
  case False
  from process_game_data_old(4) [OF this, of w p] show ?thesis .
qed

lemma py_for_Cons_process:
  "py_for (g # gs) (\<lambda>g. process_game_data w g p) s =
     py_for gs (\<lambda>g. process_game_data w g p) (snd (process_game_data w g p s))"
  by (rule process_game_data_cases [of w g p s]) (simp add: py_bind_def)

lemma py_for_total: "fst (py_for gs (\<lambda>g. process_game_data w g p) s) = Inr ()"
proof (induction gs arbitrary: s)
  case Nil
  show ?case by (simp add: py_return_def)
next
  case (Cons g gs)
  show ?case
    unfolding py_for_Cons_process by (rule Cons.IH)
qed

lemma py_for_append:
  "py_for (xs @ ys) (\<lambda>g. process_game_data w g p) s =
     py_for ys (\<lambda>g. process_game_data w g p) (snd (py_for xs (\<lambda>g. process_game_data w g p) s))"
proof (induction xs arbitrary: s)
  case Nil
  show ?case by (simp add: py_return_def)
next
  case (Cons x xs)
  show ?case
    unfolding append_Cons py_for_Cons_process by (rule Cons.IH)
qed

lemma py_for_keys:
  "set (map fst (tracked_games s)) \<subseteq>
     set (map fst (tracked_games (snd (py_for gs (\<lambda>g. process_game_data w g p) s))))"
proof (induction gs arbitrary: s)
  case Nil
  show ?case by (simp add: py_return_def)
next
  case (Cons g gs)
  have "set (map fst (tracked_games s)) \<subseteq>
          set (map fst (tracked_games (snd (process_game_data w g p s))))"
    by (rule process_game_data_keys)
  also have "\<dots> \<subseteq> set (map fst (tracked_games (snd (py_for (g # gs) (\<lambda>g. process_game_data w g p) s))))"
    unfolding py_for_Cons_process by (rule Cons.IH)
  finally show ?case .
qed

lemma py_for_requests:
  "requests (snd (py_for gs (\<lambda>g. process_game_data w g p) s)) = requests s"
proof (induction gs arbitrary: s)
  case Nil
  show ?case by (simp add: py_return_def)
next
  case (Cons g gs)
  show ?case
    unfolding py_for_Cons_process by (simp add: Cons.IH process_game_data_requests)
qed

lemma platforms_getitem_simps:
  "platforms_getitem ''epic_games'' = Inr \<lparr>name = ''Epic Games Store'', url = epic_url, color = 0x2E64FE\<rparr>"
  "platforms_getitem ''steam'' = Inr \<lparr>name = ''Steam'', url = steam_url, color = 0x1B2838\<rparr>"
  by (simp_all add: platforms_getitem_def platforms_def)

lemma check_epic_games_run:
  "check_epic_games w s =
     (let s0 = s\<lparr>events := events s @ [Http_get epic_url], tick := Suc (tick s)\<rparr>;
          failed = (\<lambda>e. (Inr (), s0\<lparr>events := events s0 @ [Log_error ''Epic Games API error'' (Some e)]\<rparr>))
      in case session_get w (tick s) epic_url of
           None \<Rightarrow> failed ClientError
         | Some r \<Rightarrow>
             if status r = 200 then
               (case body r of
                  None \<Rightarrow> failed DecodeError
                | Some d \<Rightarrow>
                    (case elements_of d of
                       Inl e \<Rightarrow> failed e
                     | Inr v \<Rightarrow>
                         (case py_iter v of
                            Inl e \<Rightarrow> failed e
                          | Inr gs \<Rightarrow> (Inr (), snd (py_for gs (\<lambda>g. process_game_data w g ''epic_games'') s0)))))
             else (Inr (), s0))"
proof -
  have loop: "py_for gs (\<lambda>g. process_game_data w g ''epic_games'') t =
      (Inr (), snd (py_for gs (\<lambda>g. process_game_data w g ''epic_games'') t))" for gs t
    using py_for_total [of gs w "''epic_games''" t]
    by (cases "py_for gs (\<lambda>g. process_game_data w g ''epic_games'') t") simp
  show ?thesis
    apply (simp add: check_epic_games_def session_get_platform_def response_json_def
        platforms_getitem_simps run_defs Let_def split: option.splits sum.splits)
    apply auto
    apply (subst loop)
    apply simp
    done
qed

lemma promotional_offers_truthy:
  "(\<exists>v. promotional_offers g = Inr v \<and> truthy v) =
   (\<exists>kvs pvs v. g = JObj kvs \<and> map_of kvs ''promotions'' = Some (JObj pvs) \<and>
      map_of pvs ''promotionalOffers'' = Some v \<and> truthy v)"
proof (cases g)
  case (JObj kvs)
  show ?thesis
  proof (cases "map_of kvs ''promotions''")
    case None
    with JObj show ?thesis by (simp add: promotional_offers_def)
  next
    case (Some p)
    with JObj show ?thesis
      by (cases p) (auto simp add: promotional_offers_def split: option.splits)
  qed
qed (simp_all add: promotional_offers_def)

lemma errors_simps:
  "errors (s\<lparr>events := es\<rparr>) = concat (map error_of es)"
  "errors (s\<lparr>tick := n\<rparr>) = errors s"
  "errors (s\<lparr>tracked_games := d\<rparr>) = errors s"
  by (simp_all add: errors_def)

lemma send_game_alert_errors:
  "\<exists>es. errors (snd (send_game_alert w g p s)) = errors s @ es \<and>
     (es = [] \<or> es = [(''Channel not found'', None)] \<or> (\<exists>e. es = [(''Alert sending error'', Some e)]))"
  by (simp add: send_game_alert_def run_defs errors_def split: sum.splits option.splits prod.splits)

lemma process_game_data_tracked:
  assumes "promotional_offers g2 = Inr v2" and "py_get g2 ''id'' JNull = Inr i2"
    and "py_hash i2 = Inr k" and "k \<in> set (map fst (tracked_games s))"
  shows "process_game_data w g2 p s = (Inr (), s)"
proof -
  obtain kvs where g: "g2 = JObj kvs"
    using assms(2) by (cases g2) simp_all
  show ?thesis
    using assms unfolding g
    by (simp add: process_game_data_def not_in_tracked_games_def is_game_free_run run_defs)
qed

lemmas scenario_defs = free_game_def other_free_game_def nameless_free_game_def
  promotional_offers_def init_def

lemma events_append:
  "alerts (s\<lparr>events := events t @ es\<rparr>) = alerts t @ concat (map alert_of es)"
  "sent (s\<lparr>events := events t @ es\<rparr>) = sent t @ concat (map sent_of es)"
  "requests (s\<lparr>events := events t @ es\<rparr>) = requests t @ concat (map request_of es)"
  "errors (s\<lparr>events := events t @ es\<rparr>) = errors t @ concat (map error_of es)"
  by (simp_all add: alerts_def sent_def requests_def errors_def)

lemmas frame_simps = events_append alerts_simps(2,3) sent_simps(2,3) requests_simps(2,3)
  errors_simps(2,3)

lemma process_game_data_not_dict:
  assumes "py_get g ''id'' JNull = Inl e"
  shows "tracked_games (snd (process_game_data w g p s)) = tracked_games s"
    and "alerts (snd (process_game_data w g p s)) = alerts s"
    and "sent (snd (process_game_data w g p s)) = sent s"
proof -
  have "\<not> (\<exists>v i k. promotional_offers g = Inr v \<and> truthy v \<and>
             py_get g ''id'' JNull = Inr i \<and> py_hash i = Inr k \<and>
             k \<notin> set (map fst (tracked_games s)))"
    using assms by simp
  from process_game_data_old(1-3) [OF this, of w p]
  show "tracked_games (snd (process_game_data w g p s)) = tracked_games s"
    and "alerts (snd (process_game_data w g p s)) = alerts s"
    and "sent (snd (process_game_data w g p s)) = sent s"
    by simp_all
qed

lemma py_for_not_dict:
  assumes "\<And>g. g \<in> set gs \<Longrightarrow> \<exists>e. py_get g ''id'' JNull = Inl e"
  shows "tracked_games (snd (py_for gs (\<lambda>g. process_game_data w g p) s)) = tracked_games s \<and>
         alerts (snd (py_for gs (\<lambda>g. process_game_data w g p) s)) = alerts s \<and>
         sent (snd (py_for gs (\<lambda>g. process_game_data w g p) s)) = sent s"
  using assms
proof (induction gs arbitrary: s)
  case Nil
  show ?case by (simp add: py_return_def)
next
  case (Cons g gs)
  obtain e where e: "py_get g ''id'' JNull = Inl e"
    using Cons.prems [of g] by auto
  have rest: "\<And>h. h \<in> set gs \<Longrightarrow> \<exists>e. py_get h ''id'' JNull = Inl e"
    using Cons.prems by simp
  show ?case
    unfolding py_for_Cons_process
    using Cons.IH [OF rest, of "snd (process_game_data w g p s)"]
    by (simp add: process_game_data_not_dict [OF e])
qed

lemma py_iter_not_list:
  assumes "py_iter v = Inr gs" and "\<And>xs. v \<noteq> JArr xs" and "g \<in> set gs"
  shows "\<exists>e. py_get g ''id'' JNull = Inl e"
  using assms by (cases v) auto

lemma check_epic_games_total: "fst (check_epic_games w s) = Inr ()"
  by (simp add: check_epic_games_run Let_def split: option.splits sum.splits)

lemma check_epic_games_requests:
  "requests (snd (check_epic_games w s)) = requests s @ [epic_url]"
  by (simp add: check_epic_games_run Let_def py_for_requests frame_simps split: option.splits sum.splits)

lemma check_steam_games_run:
  "check_steam_games w s =
     (let s0 = s\<lparr>events := events s @ [Http_get steam_url], tick := Suc (tick s)\<rparr>;
          failed = (\<lambda>e. (Inr (), s0\<lparr>events := events s0 @ [Log_error ''Steam API error'' (Some e)]\<rparr>))
      in case session_get w (tick s) steam_url of
           None \<Rightarrow> failed ClientError
         | Some r \<Rightarrow>
             if status r = 200 then
               (case body r of
                  None \<Rightarrow> failed DecodeError
                | Some d \<Rightarrow>
                    (Inr (), s0\<lparr>events := events s0 @ [Log_info ''Steam store analysis completed'' None]\<rparr>))
             else (Inr (), s0))"
  by (simp add: check_steam_games_def session_get_platform_def response_json_def
      platforms_getitem_simps run_defs Let_def split: option.splits sum.splits)

lemma check_steam_games_frame:
  "fst (check_steam_games w s) = Inr ()"
  "tracked_games (snd (check_steam_games w s)) = tracked_games s"
  "alerts (snd (check_steam_games w s)) = alerts s"
  "sent (snd (check_steam_games w s)) = sent s"
  "requests (snd (check_steam_games w s)) = requests s @ [steam_url]"
  by (simp_all add: check_steam_games_run Let_def frame_simps split: option.splits)

lemma monitor_games_run:
  "monitor_games w s =
     check_steam_games w
       ((snd (check_epic_games w s))\<lparr>events := events (snd (check_epic_games w s)) @ [Sleep 15]\<rparr>)"
proof -
  obtain s1 where s1: "check_epic_games w s = (Inr (), s1)"
    using check_epic_games_total [of w s] by (cases "check_epic_games w s") auto
  obtain s2 where s2: "check_steam_games w (s1\<lparr>events := events s1 @ [Sleep 15]\<rparr>) = (Inr (), s2)"
    using check_steam_games_frame(1) [of w "s1\<lparr>events := events s1 @ [Sleep 15]\<rparr>"]
    by (cases "check_steam_games w (s1\<lparr>events := events s1 @ [Sleep 15]\<rparr>)") auto
  show ?thesis
    by (simp add: monitor_games_def run_defs s1 s2)
qed

lemma monitor_games_frame:
  "fst (monitor_games w s) = Inr ()"
  "tracked_games (snd (monitor_games w s)) = tracked_games (snd (check_epic_games w s))"
  "alerts (snd (monitor_games w s)) = alerts (snd (check_epic_games w s))"
  "sent (snd (monitor_games w s)) = sent (snd (check_epic_games w s))"
  "requests (snd (monitor_games w s)) = requests s @ [epic_url, steam_url]"
  by (simp_all add: monitor_games_run check_steam_games_frame check_epic_games_requests
      frame_simps)



lemma elements_of_catalog: "elements_of (catalog v) = Inr v"
  by (simp add: elements_of_def catalog_def)

lemma check_epic_games_failed:
  assumes "fetch_fails (session_get w (tick s) epic_url)"
  shows "tracked_games (snd (check_epic_games w s)) = tracked_games s \<and>
         alerts (snd (check_epic_games w s)) = alerts s \<and>
         sent (snd (check_epic_games w s)) = sent s"
proof (cases "session_get w (tick s) epic_url")
  case None
  then show ?thesis
    by (simp add: check_epic_games_run Let_def frame_simps)
next
  case (Some r)
  show ?thesis
  proof (cases "status r = 200")
    case False
    with Some show ?thesis
      by (simp add: check_epic_games_run Let_def frame_simps)
  next
    case ok: True
    show ?thesis
    proof (cases "body r")
      case None
      with Some ok show ?thesis
        by (simp add: check_epic_games_run Let_def frame_simps)
    next
      case d: (Some d)
      show ?thesis
      proof (cases "elements_of d")
        case (Inl e)
        with Some ok d show ?thesis
          by (simp add: check_epic_games_run Let_def frame_simps)
      next
        case v: (Inr v)
        have not_list: "\<And>xs. v \<noteq> JArr xs"
          using assms Some ok d v by (auto simp: fetch_fails_def split: json.splits)
        show ?thesis
        proof (cases "py_iter v")
          case (Inl e)
          with Some ok d v show ?thesis
            by (simp add: check_epic_games_run Let_def frame_simps)
        next
          case (Inr gs)
          have "\<And>g. g \<in> set gs \<Longrightarrow> \<exists>e. py_get g ''id'' JNull = Inl e"
            by (rule py_iter_not_list [OF Inr not_list])
          from py_for_not_dict [OF this] Some ok d v Inr show ?thesis
            by (simp add: check_epic_games_run Let_def frame_simps)
        qed
      qed
    qed
  qed
qed


lemma process_game_data_prefix:
  "\<exists>new. tracked_games (snd (process_game_data w g p s)) = tracked_games s @ new"
proof (cases "\<exists>v i k. promotional_offers g = Inr v \<and> truthy v \<and>
             py_get g ''id'' JNull = Inr i \<and> py_hash i = Inr k \<and>
             k \<notin> set (map fst (tracked_games s))")
  case True
  then obtain v i k where "promotional_offers g = Inr v" "truthy v"
    "py_get g ''id'' JNull = Inr i" "py_hash i = Inr k" "k \<notin> set (map fst (tracked_games s))"
    by blast
  from process_game_data_new(1) [OF this, of w p] show ?thesis
    by blast
next
  case False
  from process_game_data_old(1) [OF this, of w p] show ?thesis
    by simp
qed

lemma py_for_prefix:
  "\<exists>new. tracked_games (snd (py_for gs (\<lambda>h. process_game_data w h p) s)) = tracked_games s @ new"
proof (induction gs arbitrary: s)
  case Nil
  show ?case by (simp add: py_return_def)
next
  case (Cons g gs)
  obtain n1 where n1: "tracked_games (snd (process_game_data w g p s)) = tracked_games s @ n1"
    using process_game_data_prefix by blast
  obtain n2 where "tracked_games (snd (py_for gs (\<lambda>h. process_game_data w h p) (snd (process_game_data w g p s)))) =
      tracked_games (snd (process_game_data w g p s)) @ n2"
    using Cons.IH by blast
  then show ?case
    unfolding py_for_Cons_process by (simp add: n1)
qed

lemma process_game_data_raises:
  "py_get g ''id'' JNull = Inl e \<Longrightarrow>
     process_game_data w g p s =
       (Inr (), s\<lparr>events := events s @ [Log_error ''Game processing error'' (Some e)]\<rparr>)"
  "promotional_offers g = Inr v \<Longrightarrow> truthy v \<Longrightarrow> py_get g ''id'' JNull = Inr i \<Longrightarrow>
     py_hash i = Inl e \<Longrightarrow>
     process_game_data w g p s =
       (Inr (), s\<lparr>events := events s @ [Log_error ''Game processing error'' (Some e)]\<rparr>)"
proof -
  show "py_get g ''id'' JNull = Inl e \<Longrightarrow>
     process_game_data w g p s =
       (Inr (), s\<lparr>events := events s @ [Log_error ''Game processing error'' (Some e)]\<rparr>)"
    by (simp add: process_game_data_def run_defs)
next
  assume a: "promotional_offers g = Inr v" "truthy v" "py_get g ''id'' JNull = Inr i" "py_hash i = Inl e"
  obtain kvs where g: "g = JObj kvs"
    using a(3) by (cases g) simp_all
  show "process_game_data w g p s =
       (Inr (), s\<lparr>events := events s @ [Log_error ''Game processing error'' (Some e)]\<rparr>)"
    using a unfolding g
    by (simp add: process_game_data_def not_in_tracked_games_def is_game_free_run run_defs)
qed

lemma free_game_new:
  "promotional_offers (free_game a) = Inr (JArr [JObj []])"
  "truthy (JArr [JObj []])"
  "py_get (free_game a) ''id'' JNull = Inr (JStr a)"
  "py_hash (JStr a) = Inr (KStr a)"
  by (simp_all add: free_game_def promotional_offers_def)

lemma check_steam_games_errors:
  "errors (snd (check_steam_games w s)) =
     errors s @
     (case session_get w (tick s) steam_url of
        None \<Rightarrow> [(''Steam API error'', Some ClientError)]
      | Some r \<Rightarrow>
          if status r = 200
          then (case body r of None \<Rightarrow> [(''Steam API error'', Some DecodeError)] | Some d \<Rightarrow> [])
          else [])"
  by (simp add: check_steam_games_run Let_def frame_simps split: option.splits)


lemma monitor_games_errors:
  "errors (snd (monitor_games w s)) =
     errors (snd (check_epic_games w s)) @
     (case session_get w (tick (snd (check_epic_games w s))) steam_url of
        None \<Rightarrow> [(''Steam API error'', Some ClientError)]
      | Some r \<Rightarrow>
          if status r = 200
          then (case body r of None \<Rightarrow> [(''Steam API error'', Some DecodeError)] | Some d \<Rightarrow> [])
          else [])"
  by (simp add: monitor_games_run check_steam_games_errors frame_simps)

lemma init_simps:
  "tracked_games init = []" "alerts init = []" "sent init = []" "requests init = []"
  "errors init = []" "tick init = 0" "events init = []"
  by (simp_all add: init_def alerts_def sent_def requests_def errors_def)

lemma monitor_games_records:
  assumes "session_get w (tick s) epic_url = Some r" and "status r = 200" and "body r = Some d"
    and "elements_of d = Inr (JArr gs)"
  shows "tracked_games (snd (monitor_games w s)) =
           tracked_games (snd (py_for gs (\<lambda>g. process_game_data w g ''epic_games'')
             (s\<lparr>events := events s @ [Http_get epic_url], tick := Suc (tick s)\<rparr>)))"
    and "alerts (snd (monitor_games w s)) =
           alerts (snd (py_for gs (\<lambda>g. process_game_data w g ''epic_games'')
             (s\<lparr>events := events s @ [Http_get epic_url], tick := Suc (tick s)\<rparr>)))"
    and "sent (snd (monitor_games w s)) =
           sent (snd (py_for gs (\<lambda>g. process_game_data w g ''epic_games'')
             (s\<lparr>events := events s @ [Http_get epic_url], tick := Suc (tick s)\<rparr>)))"
  using assms by (simp_all add: monitor_games_frame check_epic_games_run Let_def)

lemma py_for_Nil_process: "py_for [] f s = (Inr (), s)"
  by (simp add: py_return_def)

lemma not_in_tracked_games_run:
  "py_hash i = Inr k \<Longrightarrow>
     not_in_tracked_games i s = (Inr (k \<notin> set (map fst (tracked_games s))), s)"
  by (simp add: not_in_tracked_games_def run_defs)

lemma catalog_world_simps:
  "session_get (catalog_world gs) n u = Some (Response 200 (Some (catalog (JArr gs))))"
  "datetime_now (catalog_world gs) n = n"
  by (simp_all add: catalog_world_def friendly_def)

lemma process_game_data_new_sent:
  assumes "promotional_offers g = Inr v" and "truthy v"
    and "py_get g ''id'' JNull = Inr i" and "py_hash i = Inr k"
    and "k \<notin> set (map fst (tracked_games s))"
  shows "sent (snd (process_game_data w g p s)) =
           sent (snd (send_game_alert w g p
             (s\<lparr>tick := Suc (tick s),
                tracked_games := AList.update k (datetime_now w (tick s)) (tracked_games s)\<rparr>)))"
proof -
  obtain kvs where g: "g = JObj kvs"
    using assms(3) by (cases g) simp_all
  define s1 where "s1 = s\<lparr>tick := Suc (tick s),
    tracked_games := AList.update k (datetime_now w (tick s)) (tracked_games s)\<rparr>"
  obtain s2 where s2: "send_game_alert w g p s1 = (Inr (), s2)"
    by (rule send_game_alert_cases [of w g p s1]) blast
  have "process_game_data w g p s =
    (Inr (), s2\<lparr>events := events s2 @
       [Log_info ''New free game detected''
         (Some (case map_of kvs ''title'' of None \<Rightarrow> JStr ''Unknown Game'' | Some t \<Rightarrow> t))]\<rparr>)"
    using assms s2 unfolding s1_def g
    by (simp add: process_game_data_def not_in_tracked_games_def tracked_games_setitem_def
        is_game_free_run run_defs)
  then show ?thesis
    using s2 by (simp add: s1_def [symmetric] frame_simps)
qed

lemma send_game_alert_no_channel:
  "getenv_channel_id w (tick s) = Some c \<Longrightarrow> \<not> get_channel w (Suc (tick s)) c \<Longrightarrow>
     sent (snd (send_game_alert w g p s)) = sent s"
  by (simp add: send_game_alert_def run_defs sent_def)

lemma no_channel_simps:
  "getenv_channel_id no_channel n = Some 42" "get_channel no_channel n c = False"
  "datetime_now no_channel n = n"
  by (simp_all add: no_channel_def)

lemma process_game_data_not_free:
  assumes "promotional_offers g = Inr v" and "\<not> truthy v"
  shows "tracked_games (snd (process_game_data w g p s)) = tracked_games s"
    and "alerts (snd (process_game_data w g p s)) = alerts s"
    and "sent (snd (process_game_data w g p s)) = sent s"
proof -
  have "\<not> (\<exists>v i k. promotional_offers g = Inr v \<and> truthy v \<and>
             py_get g ''id'' JNull = Inr i \<and> py_hash i = Inr k \<and>
             k \<notin> set (map fst (tracked_games s)))"
    using assms by simp
  from process_game_data_old(1-3) [OF this, of w p]
  show "tracked_games (snd (process_game_data w g p s)) = tracked_games s"
    and "alerts (snd (process_game_data w g p s)) = alerts s"
    and "sent (snd (process_game_data w g p s)) = sent s"
    by simp_all
qed

lemma no_offers:
  "promotional_offers (no_offer_game a) = Inr (JArr [])"
  "promotional_offers (spec_free_game a) = Inr (JArr [])"
  "promotional_offers (spec_no_offer_game a) = Inr (JArr [])"
  "\<not> truthy (JArr [])"
  by (simp_all add: no_offer_game_def spec_free_game_def spec_no_offer_game_def promotional_offers_def)

lemma send_game_alert_events:
  "\<exists>es. events (snd (send_game_alert w g p s)) = events s @ es"
  by (simp add: send_game_alert_def run_defs split: sum.splits option.splits prod.splits)

lemma process_game_data_events:
  "\<exists>es. events (snd (process_game_data w g p s)) = events s @ es"
proof (cases "\<exists>v i k. promotional_offers g = Inr v \<and> truthy v \<and>
             py_get g ''id'' JNull = Inr i \<and> py_hash i = Inr k \<and>
             k \<notin> set (map fst (tracked_games s))")
  case True
  then obtain v i k where a: "promotional_offers g = Inr v" "truthy v"
    "py_get g ''id'' JNull = Inr i" "py_hash i = Inr k" "k \<notin> set (map fst (tracked_games s))"
    by blast
  obtain kvs where g: "g = JObj kvs"
    using a(3) by (cases g) simp_all
  define s1 where "s1 = s\<lparr>tick := Suc (tick s),
    tracked_games := AList.update k (datetime_now w (tick s)) (tracked_games s)\<rparr>"
  obtain s2 where s2: "send_game_alert w g p s1 = (Inr (), s2)"
    by (rule send_game_alert_cases [of w g p s1]) blast
  obtain es where es: "events s2 = events s1 @ es"
    using send_game_alert_events [of w g p s1] s2 by auto
  have "process_game_data w g p s =
    (Inr (), s2\<lparr>events := events s2 @
       [Log_info ''New free game detected''
         (Some (case map_of kvs ''title'' of None \<Rightarrow> JStr ''Unknown Game'' | Some t \<Rightarrow> t))]\<rparr>)"
    using a s2 unfolding s1_def g
    by (simp add: process_game_data_def not_in_tracked_games_def tracked_games_setitem_def
        is_game_free_run run_defs)
  then show ?thesis
    using es by (simp add: s1_def)
next
  case False
  then show ?thesis
    by (auto simp add: process_game_data_def not_in_tracked_games_def
      is_game_free_run run_defs split: sum.splits prod.splits)
qed

lemma py_for_events:
  "\<exists>es. events (snd (py_for gs (\<lambda>h. process_game_data w h p) s)) = events s @ es"
proof (induction gs arbitrary: s)
  case Nil
  show ?case by (simp add: py_return_def)
next
  case (Cons g gs)
  obtain e1 where e1: "events (snd (process_game_data w g p s)) = events s @ e1"
    using process_game_data_events by blast
  obtain e2 where "events (snd (py_for gs (\<lambda>h. process_game_data w h p) (snd (process_game_data w g p s)))) =
      events (snd (process_game_data w g p s)) @ e2"
    using Cons.IH by blast
  then show ?case
    unfolding py_for_Cons_process by (simp add: e1)
qed

lemma py_for_tracks:
  assumes "h \<in> set gs" and "promotional_offers h = Inr v" and "truthy v"
    and "py_get h ''id'' JNull = Inr i" and "py_hash i = Inr k"
  shows "k \<in> set (map fst (tracked_games (snd (py_for gs (\<lambda>g. process_game_data w g p) s))))"
  using assms(1)
proof (induction gs arbitrary: s)
  case Nil
  then show ?case by simp
next
  case (Cons g gs)
  show ?case
  proof (cases "h = g")
    case True
    have "k \<in> set (map fst (tracked_games (snd (process_game_data w g p s))))"
    proof (cases "k \<in> set (map fst (tracked_games s))")
      case True
      then show ?thesis
        using process_game_data_keys [of s w g p] by blast
    next
      case False
      from process_game_data_new(1) [OF assms(2-5) False, of w p] \<open>h = g\<close> show ?thesis
        by simp
    qed
    then show ?thesis
      unfolding py_for_Cons_process
      using py_for_keys [of "snd (process_game_data w g p s)" gs w p] by blast
  next
    case False
    then have "h \<in> set gs"
      using Cons.prems by simp
    then show ?thesis
      unfolding py_for_Cons_process by (rule Cons.IH)
  qed
qed





lemma check_epic_games_records:
  assumes "session_get w (tick s) epic_url = Some r" and "status r = 200" and "body r = Some d"
    and "elements_of d = Inr (JArr gs)"
  shows "check_epic_games w s =
           (Inr (), snd (py_for gs (\<lambda>g. process_game_data w g ''epic_games'')
             (s\<lparr>events := events s @ [Http_get epic_url], tick := Suc (tick s)\<rparr>)))"
  using assms by (simp add: check_epic_games_run Let_def)

lemma py_for_logged:
  assumes "g \<in> set gs"
    and "\<And>t. process_game_data w g p t = (Inr (), t\<lparr>events := events t @ [Log_error m x]\<rparr>)"
  shows "(m, x) \<in> set (errors (snd (py_for gs (\<lambda>h. process_game_data w h p) s)))"
proof -
  obtain xs ys where gs: "gs = xs @ g # ys"
    using assms(1) by (meson split_list)
  define t where "t = snd (py_for xs (\<lambda>h. process_game_data w h p) s)"
  obtain es where "events (snd (py_for ys (\<lambda>h. process_game_data w h p)
      (t\<lparr>events := events t @ [Log_error m x]\<rparr>))) = (events t @ [Log_error m x]) @ es"
    using py_for_events [of ys w p "t\<lparr>events := events t @ [Log_error m x]\<rparr>"] by auto
  then show ?thesis
    unfolding gs py_for_append py_for_Cons_process t_def [symmetric]
    by (simp add: assms(2) errors_def)
qed



lemma check_epic_games_logged:
  assumes "session_get w (tick s) epic_url = Some r" and "status r = 200" and "body r = Some d"
    and "elements_of d = Inr (JArr gs)" and "g \<in> set gs"
    and "\<And>t. process_game_data w g ''epic_games'' t = (Inr (), t\<lparr>events := events t @ [Log_error m x]\<rparr>)"
  shows "(m, x) \<in> set (errors (snd (check_epic_games w s)))"
    and "(m, x) \<in> set (errors (snd (monitor_games w s)))"
proof -
  show "(m, x) \<in> set (errors (snd (check_epic_games w s)))"
    unfolding check_epic_games_records [OF assms(1-4)]
    using py_for_logged [OF assms(5), of w "''epic_games''" m x] assms(6) by simp
  then show "(m, x) \<in> set (errors (snd (monitor_games w s)))"
    by (simp add: monitor_games_errors)
qed


section \<open>The claims\<close>

subsection \<open>C3: the free-game test\<close>

text \<open>
  C3, as the code has it. \<^verbatim>\<open>is_game_free\<close> never raises. It answers \<^verbatim>\<open>True\<close> exactly when
  the record is a dict whose \<^verbatim>\<open>promotions\<close> is a dict whose \<^verbatim>\<open>promotionalOffers\<close> is
  there and passes Python's truth test (a list with at least one entry, but also a non-empty
  string or dict, a non-zero number, \<^verbatim>\<open>true\<close>), and \<^verbatim>\<open>False\<close> otherwise. It leaves the
  tracked games alone, calls no alert, sends no message and makes no request; its only
  effect is one error line in the log when a \<^verbatim>\<open>.get\<close> raised.
\<close>

theorem is_game_free_truth_test:
  "\<exists>b s'. is_game_free g s = (Inr b, s') \<and>
     b = (\<exists>kvs pvs v. g = JObj kvs \<and> map_of kvs ''promotions'' = Some (JObj pvs) \<and>
            map_of pvs ''promotionalOffers'' = Some v \<and> truthy v) \<and>
     tracked_games s' = tracked_games s \<and> alerts s' = alerts s \<and> sent s' = sent s \<and>
     requests s' = requests s \<and>
     (events s' = events s \<or>
      (\<exists>e. promotional_offers g = Inl e \<and>
         events s' = events s @ [Log_error ''Free check error'' (Some e)]))"
proof (cases "promotional_offers g")
  case (Inl e)
  then have "\<not> (\<exists>v. promotional_offers g = Inr v \<and> truthy v)" by simp
  then show ?thesis
    unfolding promotional_offers_truthy using Inl
    by (simp add: is_game_free_run alerts_def sent_def requests_def)
next
  case (Inr v)
  then have "truthy v = (\<exists>v. promotional_offers g = Inr v \<and> truthy v)" by simp
  then show ?thesis
    unfolding promotional_offers_truthy using Inr
    by (simp add: is_game_free_run)
qed

text \<open>
  C3 as stated fails: the offers may be malformed, here the number 1 where a list is
  expected, and the test still answers \<^verbatim>\<open>True\<close>.
\<close>

theorem is_game_free_number_counterexample:
  "fst (is_game_free (JObj [(''promotions'', JObj [(''promotionalOffers'', JNum 1)])]) init) = Inr True"
  by (simp add: is_game_free_run promotional_offers_def)

subsection \<open>C1: the key of the tracked games\<close>

text \<open>
  C1, as the code has it. \<^verbatim>\<open>tracked_games\<close> is keyed by the id alone. When two free
  records carry the same id, not yet tracked, and are processed for two distinct
  platforms, one after the other, the store gains one entry, under that id, and
  \<^verbatim>\<open>send_game_alert\<close> is called once, for the first platform; the second record
  changes nothing.
\<close>

theorem same_id_two_platforms:
  assumes "promotional_offers g1 = Inr v1" and "truthy v1"
    and "py_get g1 ''id'' JNull = Inr i1" and "py_hash i1 = Inr k"
    and "promotional_offers g2 = Inr v2" and "truthy v2"
    and "py_get g2 ''id'' JNull = Inr i2" and "py_hash i2 = Inr k"
    and "k \<notin> set (map fst (tracked_games s))" and "p1 \<noteq> p2"
  shows "map fst (tracked_games (snd (process_game_data w2 g2 p2 (snd (process_game_data w1 g1 p1 s))))) =
           map fst (tracked_games s) @ [k] \<and>
         alerts (snd (process_game_data w2 g2 p2 (snd (process_game_data w1 g1 p1 s)))) =
           alerts s @ [(g1, p1)]"
proof -
  define s1 where "s1 = snd (process_game_data w1 g1 p1 s)"
  have t1: "tracked_games s1 = tracked_games s @ [(k, datetime_now w1 (tick s))]"
    unfolding s1_def by (rule process_game_data_new(1) [OF assms(1-4) assms(9)])
  have a1: "alerts s1 = alerts s @ [(g1, p1)]"
    unfolding s1_def by (rule process_game_data_new(2) [OF assms(1-4) assms(9)])
  have "k \<in> set (map fst (tracked_games s1))"
    by (simp add: t1)
  then have "process_game_data w2 g2 p2 s1 = (Inr (), s1)"
    by (rule process_game_data_tracked [OF assms(5) assms(7) assms(8)])
  then show ?thesis
    unfolding s1_def [symmetric] by (simp add: t1 a1)
qed

text \<open>The theorem at scenario D.\<close>

theorem same_id_two_platforms_witness:
  "map fst (tracked_games scenario_D) = [KStr ''A1''] \<and>
   alerts scenario_D = [(free_game ''A1'', ''epic_games'')]"
  using same_id_two_platforms [where ?g1.0 = "free_game ''A1''" and ?g2.0 = "other_free_game ''A1''"
      and ?v1.0 = "JArr [JObj []]" and ?v2.0 = "JArr [JBool True]"
      and ?i1.0 = "JStr ''A1''" and ?i2.0 = "JStr ''A1''" and k = "KStr ''A1''" and s = init
      and ?p1.0 = "''epic_games''" and ?p2.0 = "''steam''"
      and ?w1.0 = "friendly None" and ?w2.0 = "friendly None"]
  by (simp add: scenario_defs scenario_D_def alerts_def)

text \<open>
  C1 as stated fails: scenario D ends with one tracked game and one alert, not two of
  each.
\<close>

theorem same_id_two_platforms_counterexample:
  "length (tracked_games scenario_D) = 1 \<and> length (alerts scenario_D) = 1"
proof -
  define s1 where "s1 = snd (process_game_data (friendly None) (free_game ''A1'') ''epic_games'' init)"
  have new: "promotional_offers (free_game ''A1'') = Inr (JArr [JObj []])" "truthy (JArr [JObj []])"
    "py_get (free_game ''A1'') ''id'' JNull = Inr (JStr ''A1'')" "py_hash (JStr ''A1'') = Inr (KStr ''A1'')"
    "KStr ''A1'' \<notin> set (map fst (tracked_games init))"
    by (simp_all add: scenario_defs)
  have t1: "tracked_games s1 = [(KStr ''A1'', datetime_now (friendly None) (tick init))]"
    unfolding s1_def using process_game_data_new(1) [OF new] by (simp add: init_def)
  have a1: "alerts s1 = [(free_game ''A1'', ''epic_games'')]"
    unfolding s1_def using process_game_data_new(2) [OF new] by (simp add: init_def alerts_def)
  have "process_game_data (friendly None) (other_free_game ''A1'') ''steam'' s1 = (Inr (), s1)"
    by (rule process_game_data_tracked [where ?v2.0 = "JArr [JBool True]" and ?i2.0 = "JStr ''A1''"
          and k = "KStr ''A1''"])
      (simp_all add: scenario_defs t1)
  then have eq: "scenario_D = s1"
    by (simp add: scenario_D_def s1_def [symmetric])
  show ?thesis
    unfolding eq by (simp add: t1 a1)
qed

subsection \<open>C2: a record without an id\<close>

text \<open>
  C2, as the code has it. A record without \<^verbatim>\<open>id\<close> is no error: \<^verbatim>\<open>game_data.get('id')\<close>
  is \<^verbatim>\<open>None\<close>, and \<^verbatim>\<open>None\<close> is a key like another. Processing a free record without id
  raises nothing; when \<^verbatim>\<open>None\<close> is not yet tracked the record is tracked under \<^verbatim>\<open>None\<close>
  and \<^verbatim>\<open>send_game_alert\<close> is called once for it; when \<^verbatim>\<open>None\<close> is tracked already (by an
  earlier record without id) nothing changes at all.
\<close>

theorem record_without_id:
  assumes "map_of kvs ''id'' = None"
    and "promotional_offers (JObj kvs) = Inr v" and "truthy v"
  shows "fst (process_game_data w (JObj kvs) p s) = Inr () \<and>
     (if KNone \<in> set (map fst (tracked_games s))
      then snd (process_game_data w (JObj kvs) p s) = s
      else tracked_games (snd (process_game_data w (JObj kvs) p s)) =
             tracked_games s @ [(KNone, datetime_now w (tick s))] \<and>
           alerts (snd (process_game_data w (JObj kvs) p s)) = alerts s @ [(JObj kvs, p)])"
proof -
  have i: "py_get (JObj kvs) ''id'' JNull = Inr JNull"
    using assms(1) by simp
  have h: "py_hash JNull = Inr KNone"
    by simp
  show ?thesis
  proof (cases "KNone \<in> set (map fst (tracked_games s))")
    case True
    from process_game_data_tracked [OF assms(2) i h True, of w p] True show ?thesis
      by simp
  next
    case False
    from process_game_data_new(1,2) [OF assms(2,3) i h False, of w p] False
    show ?thesis
      by (simp add: process_game_data_total)
  qed
qed

text \<open>The theorem at a record with an offer and no id, in the initial state.\<close>

theorem record_without_id_witness:
  "fst (process_game_data (friendly None) nameless_free_game ''epic_games'' init) = Inr () \<and>
   tracked_games (snd (process_game_data (friendly None) nameless_free_game ''epic_games'' init)) =
     [(KNone, 0)] \<and>
   alerts (snd (process_game_data (friendly None) nameless_free_game ''epic_games'' init)) =
     [(nameless_free_game, ''epic_games'')]"
  using record_without_id [where kvs = "[(''promotions'', JObj [(''promotionalOffers'', JArr [JObj []])])]"
      and v = "JArr [JObj []]" and w = "friendly None" and p = "''epic_games''" and s = init]
  by (simp add: scenario_defs alerts_def friendly_def)

text \<open>
  C2 as stated fails: after the record without id, one game is tracked and one alert
  has been called.
\<close>

theorem record_without_id_counterexample:
  "length (tracked_games (snd (process_game_data (friendly None) nameless_free_game ''epic_games'' init))) = 1 \<and>
   length (alerts (snd (process_game_data (friendly None) nameless_free_game ''epic_games'' init))) = 1"
proof -
  have new: "promotional_offers nameless_free_game = Inr (JArr [JObj []])" "truthy (JArr [JObj []])"
    "py_get nameless_free_game ''id'' JNull = Inr JNull" "py_hash JNull = Inr KNone"
    "KNone \<notin> set (map fst (tracked_games init))"
    by (simp_all add: scenario_defs)
  from process_game_data_new(1,2) [OF new, of "friendly None" "''epic_games''"]
  show ?thesis
    by (simp add: init_def alerts_def)
qed

subsection \<open>C9: the Steam source\<close>

text \<open>
  C9. \<^verbatim>\<open>check_steam_games\<close> is a stub: whatever the surroundings answer, it raises
  nothing, leaves the tracked games as they are, calls no alert and sends no message.
  So after a firing of \<^verbatim>\<open>monitor_games\<close> the tracked games, the alerts and the messages
  sent are those that \<^verbatim>\<open>check_epic_games\<close> left: only the Epic source adds entries or
  triggers alerts.
\<close>

theorem steam_is_a_stub:
  "fst (check_steam_games w s) = Inr () \<and>
   tracked_games (snd (check_steam_games w s)) = tracked_games s \<and>
   alerts (snd (check_steam_games w s)) = alerts s \<and>
   sent (snd (check_steam_games w s)) = sent s \<and>
   tracked_games (snd (monitor_games w s)) = tracked_games (snd (check_epic_games w s)) \<and>
   alerts (snd (monitor_games w s)) = alerts (snd (check_epic_games w s)) \<and>
   sent (snd (monitor_games w s)) = sent (snd (check_epic_games w s))"
  by (simp add: check_steam_games_frame monitor_games_frame)

subsection \<open>C7: a failed fetch\<close>

text \<open>
  C7. When the fetch from Epic fails (the request raises, the status is not 200, the body
  is not JSON, the path to the records is absent or does not lead to a list), neither
  \<^verbatim>\<open>check_epic_games\<close> nor the whole firing of \<^verbatim>\<open>monitor_games\<close> raises, the tracked games
  are unchanged, no alert is called and no message is sent.
\<close>

theorem failed_fetch_changes_nothing:
  assumes "fetch_fails (session_get w (tick s) epic_url)"
  shows "fst (check_epic_games w s) = Inr () \<and>
         tracked_games (snd (check_epic_games w s)) = tracked_games s \<and>
         alerts (snd (check_epic_games w s)) = alerts s \<and>
         sent (snd (check_epic_games w s)) = sent s \<and>
         fst (monitor_games w s) = Inr () \<and>
         tracked_games (snd (monitor_games w s)) = tracked_games s \<and>
         alerts (snd (monitor_games w s)) = alerts s \<and>
         sent (snd (monitor_games w s)) = sent s"
  using check_epic_games_failed [OF assms]
  by (simp add: check_epic_games_total monitor_games_frame)

text \<open>
  The theorem at four failures, from the initial state: a body without the path, a
  request that raises, the status 503, and a string where the list of records should be.
\<close>

theorem failed_fetch_changes_nothing_witness:
  "fetch_fails (session_get (friendly (Some (Response 200 (Some (JObj []))))) (tick init) epic_url) \<and>
   fst (monitor_games (friendly (Some (Response 200 (Some (JObj []))))) init) = Inr () \<and>
   tracked_games (snd (monitor_games (friendly (Some (Response 200 (Some (JObj []))))) init)) = [] \<and>
   alerts (snd (monitor_games (friendly (Some (Response 200 (Some (JObj []))))) init)) = [] \<and>
   sent (snd (monitor_games (friendly (Some (Response 200 (Some (JObj []))))) init)) = [] \<and>
   fetch_fails (session_get (friendly None) (tick init) epic_url) \<and>
   tracked_games (snd (monitor_games (friendly None) init)) = [] \<and>
   alerts (snd (monitor_games (friendly None) init)) = [] \<and>
   fetch_fails (session_get (friendly (Some (Response 503 None))) (tick init) epic_url) \<and>
   tracked_games (snd (monitor_games (friendly (Some (Response 503 None))) init)) = [] \<and>
   alerts (snd (monitor_games (friendly (Some (Response 503 None))) init)) = [] \<and>
   fetch_fails (session_get (friendly (Some (Response 200 (Some (catalog (JStr ''ab'')))))) (tick init) epic_url) \<and>
   tracked_games (snd (monitor_games (friendly (Some (Response 200 (Some (catalog (JStr ''ab'')))))) init)) = [] \<and>
   alerts (snd (monitor_games (friendly (Some (Response 200 (Some (catalog (JStr ''ab'')))))) init)) = []"
proof -
  have f1: "fetch_fails (session_get (friendly (Some (Response 200 (Some (JObj []))))) (tick init) epic_url)"
    by (simp add: fetch_fails_def friendly_def elements_of_def)
  have f2: "fetch_fails (session_get (friendly None) (tick init) epic_url)"
    by (simp add: fetch_fails_def friendly_def)
  have f3: "fetch_fails (session_get (friendly (Some (Response 503 None))) (tick init) epic_url)"
    by (simp add: fetch_fails_def friendly_def)
  have f4: "fetch_fails (session_get (friendly (Some (Response 200 (Some (catalog (JStr ''ab'')))))) (tick init) epic_url)"
    by (simp add: fetch_fails_def friendly_def elements_of_catalog)
  show ?thesis
    using failed_fetch_changes_nothing [OF f1] failed_fetch_changes_nothing [OF f2]
      failed_fetch_changes_nothing [OF f3] failed_fetch_changes_nothing [OF f4] f1 f2 f3 f4
    by (simp add: init_def alerts_def sent_def)
qed

subsection \<open>C10: one record fails, the others go on\<close>

text \<open>
  C10. An exception raised while a record is processed (the record is not a dict; or it
  is free and its id is unhashable) is caught in \<^verbatim>\<open>process_game_data\<close>: the call
  returns normally, and all it does is log the error. So when Epic answers with the
  records \<open>xs @ g # ys\<close>, \<^verbatim>\<open>check_epic_games\<close> does not stop at \<open>g\<close>: it returns normally,
  in the state that the loop over \<open>ys\<close> leaves when run from the state that \<open>g\<close> leaves
  after the loop over \<open>xs\<close>. At its end the error of \<open>g\<close> is in the log, the entries
  tracked for \<open>xs\<close> are still there, in their place, and the id of every free record of
  the response, before \<open>g\<close> or after it, is tracked.
\<close>

theorem record_failure_is_isolated:
  assumes "session_get w (tick s) epic_url = Some r" and "status r = 200" and "body r = Some d"
    and "elements_of d = Inr (JArr (xs @ g # ys))"
  shows "fst (process_game_data w g p t) = Inr () \<and>
   (\<exists>new. tracked_games (snd (process_game_data w g p t)) = tracked_games t @ new) \<and>
   (py_get g ''id'' JNull = Inl e \<longrightarrow>
      process_game_data w g p t =
        (Inr (), t\<lparr>events := events t @ [Log_error ''Game processing error'' (Some e)]\<rparr>) \<and>
      (''Game processing error'', Some e) \<in> set (errors (snd (check_epic_games w s)))) \<and>
   (promotional_offers g = Inr v \<and> truthy v \<and> py_get g ''id'' JNull = Inr i \<and> py_hash i = Inl e \<longrightarrow>
      process_game_data w g p t =
        (Inr (), t\<lparr>events := events t @ [Log_error ''Game processing error'' (Some e)]\<rparr>) \<and>
      (''Game processing error'', Some e) \<in> set (errors (snd (check_epic_games w s)))) \<and>
   check_epic_games w s =
     (Inr (), snd (py_for ys (\<lambda>h. process_game_data w h ''epic_games'')
       (snd (process_game_data w g ''epic_games''
         (snd (py_for xs (\<lambda>h. process_game_data w h ''epic_games'')
           (s\<lparr>events := events s @ [Http_get epic_url], tick := Suc (tick s)\<rparr>))))))) \<and>
   (\<exists>new. tracked_games (snd (check_epic_games w s)) =
      tracked_games (snd (py_for xs (\<lambda>h. process_game_data w h ''epic_games'')
        (s\<lparr>events := events s @ [Http_get epic_url], tick := Suc (tick s)\<rparr>))) @ new) \<and>
   (\<forall>h \<in> set (xs @ g # ys). \<forall>v' i' k.
      promotional_offers h = Inr v' \<and> truthy v' \<and> py_get h ''id'' JNull = Inr i' \<and> py_hash i' = Inr k \<longrightarrow>
      k \<in> set (map fst (tracked_games (snd (check_epic_games w s)))))"
proof -
  define s0 where "s0 = s\<lparr>events := events s @ [Http_get epic_url], tick := Suc (tick s)\<rparr>"
  have run: "check_epic_games w s =
      (Inr (), snd (py_for (xs @ g # ys) (\<lambda>h. process_game_data w h ''epic_games'') s0))"
    unfolding s0_def by (rule check_epic_games_records [OF assms])
  have step: "py_for (xs @ g # ys) (\<lambda>h. process_game_data w h ''epic_games'') s0 =
     py_for ys (\<lambda>h. process_game_data w h ''epic_games'')
       (snd (process_game_data w g ''epic_games''
         (snd (py_for xs (\<lambda>h. process_game_data w h ''epic_games'') s0))))"
    unfolding py_for_append by (rule py_for_Cons_process)
  have whole: "check_epic_games w s =
     (Inr (), snd (py_for ys (\<lambda>h. process_game_data w h ''epic_games'')
       (snd (process_game_data w g ''epic_games''
         (snd (py_for xs (\<lambda>h. process_game_data w h ''epic_games'') s0))))))"
    unfolding run step ..
  have earlier: "\<exists>new. tracked_games (snd (check_epic_games w s)) =
      tracked_games (snd (py_for xs (\<lambda>h. process_game_data w h ''epic_games'') s0)) @ new"
    unfolding run snd_conv py_for_append by (rule py_for_prefix)
  have tracked: "\<forall>h \<in> set (xs @ g # ys). \<forall>v' i' k.
      promotional_offers h = Inr v' \<and> truthy v' \<and> py_get h ''id'' JNull = Inr i' \<and> py_hash i' = Inr k \<longrightarrow>
      k \<in> set (map fst (tracked_games (snd (check_epic_games w s))))"
    unfolding run snd_conv using py_for_tracks [of _ "xs @ g # ys"] by blast
  have here: "g \<in> set (xs @ g # ys)"
    by simp
  have logged1: "py_get g ''id'' JNull = Inl e \<longrightarrow>
      (''Game processing error'', Some e) \<in> set (errors (snd (check_epic_games w s)))"
    using check_epic_games_logged(1) [OF assms here] by (simp add: process_game_data_raises(1))
  have logged2: "promotional_offers g = Inr v \<and> truthy v \<and> py_get g ''id'' JNull = Inr i \<and> py_hash i = Inl e \<longrightarrow>
      (''Game processing error'', Some e) \<in> set (errors (snd (check_epic_games w s)))"
    using check_epic_games_logged(1) [OF assms here] process_game_data_raises(2) [of g v i e w "''epic_games''"]
    by blast
  have caught: "py_get g ''id'' JNull = Inl e \<longrightarrow>
      process_game_data w g p t =
        (Inr (), t\<lparr>events := events t @ [Log_error ''Game processing error'' (Some e)]\<rparr>)"
    "promotional_offers g = Inr v \<and> truthy v \<and> py_get g ''id'' JNull = Inr i \<and> py_hash i = Inl e \<longrightarrow>
      process_game_data w g p t =
        (Inr (), t\<lparr>events := events t @ [Log_error ''Game processing error'' (Some e)]\<rparr>)"
    by (simp_all add: process_game_data_raises)
  show ?thesis
    unfolding s0_def [symmetric]
    using whole earlier tracked logged1 logged2 caught process_game_data_total [of w g p t]
      process_game_data_prefix [of w g p t]
    by blast
qed

text \<open>
  The theorem where Epic answers with the records \<^verbatim>\<open>A1\<close>, \<^verbatim>\<open>null\<close>, \<^verbatim>\<open>A2\<close>: both games
  are tracked at the end and the error of \<^verbatim>\<open>null\<close> is in the log; and where it answers
  with a free record whose id is a list.
\<close>

theorem record_failure_is_isolated_witness:
  "process_game_data (catalog_world [free_game ''A1'', JNull, free_game ''A2'']) JNull ''steam'' init =
     (Inr (), init\<lparr>events := events init @ [Log_error ''Game processing error'' (Some AttributeError)]\<rparr>) \<and>
   fst (check_epic_games (catalog_world [free_game ''A1'', JNull, free_game ''A2'']) init) = Inr () \<and>
   map fst (tracked_games (snd (check_epic_games (catalog_world [free_game ''A1'', JNull, free_game ''A2'']) init))) =
     [KStr ''A1'', KStr ''A2''] \<and>
   (''Game processing error'', Some AttributeError)
     \<in> set (errors (snd (check_epic_games (catalog_world [free_game ''A1'', JNull, free_game ''A2'']) init))) \<and>
   (''Game processing error'', Some TypeError)
     \<in> set (errors (snd (check_epic_games (catalog_world [unhashable_free_game]) init)))"
proof -
  define w where "w = catalog_world [free_game ''A1'', JNull, free_game ''A2'']"
  define s0 where "s0 = init\<lparr>events := events init @ [Http_get epic_url], tick := Suc (tick init)\<rparr>"
  define s1 where "s1 = snd (process_game_data w (free_game ''A1'') ''epic_games'' s0)"
  define s2 where "s2 = snd (process_game_data w JNull ''epic_games'' s1)"
  define s3 where "s3 = snd (process_game_data w (free_game ''A2'') ''epic_games'' s2)"
  have sel: "\<And>x. status (Response 200 x) = 200" "\<And>x. body (Response 200 (Some x)) = Some x"
    by simp_all
  have resp: "session_get w (tick init) epic_url =
      Some (Response 200 (Some (catalog (JArr ([free_game ''A1''] @ JNull # [free_game ''A2''])))))"
    by (simp add: w_def catalog_world_simps)
  note inst = record_failure_is_isolated [where w = w and s = init
      and r = "Response 200 (Some (catalog (JArr ([free_game ''A1''] @ JNull # [free_game ''A2'']))))"
      and d = "catalog (JArr ([free_game ''A1''] @ JNull # [free_game ''A2'']))"
      and xs = "[free_game ''A1'']" and g = JNull and ys = "[free_game ''A2'']"
      and e = AttributeError and t = init and p = "''steam''" and v = JNull and i = JNull,
      OF resp sel elements_of_catalog]
  have resp2: "session_get (catalog_world [unhashable_free_game]) (tick init) epic_url =
      Some (Response 200 (Some (catalog (JArr ([] @ unhashable_free_game # [])))))"
    by (simp add: catalog_world_simps)
  note inst2 = record_failure_is_isolated [where w = "catalog_world [unhashable_free_game]" and s = init
      and r = "Response 200 (Some (catalog (JArr ([] @ unhashable_free_game # []))))"
      and d = "catalog (JArr ([] @ unhashable_free_game # []))"
      and xs = "[]" and g = unhashable_free_game and ys = "[]"
      and e = TypeError and t = init and p = "''steam''" and v = "JArr [JObj []]"
      and i = "JArr [JStr ''A1'']",
      OF resp2 sel elements_of_catalog]
  have run: "check_epic_games w init = (Inr (), s3)"
    using inst
    by (simp add: py_for_Cons_process py_for_Nil_process s0_def s1_def s2_def s3_def
        del: py_for.simps)
  have fresh: "KStr ''A1'' \<notin> set (map fst (tracked_games s0))"
    by (simp add: s0_def init_simps)
  have t1: "tracked_games s1 = [(KStr ''A1'', datetime_now w (tick s0))]"
    unfolding s1_def
    using process_game_data_new(1) [OF free_game_new fresh, of w "''epic_games''"]
    by (simp add: s0_def init_simps)
  have t2: "tracked_games s2 = tracked_games s1"
    unfolding s2_def by (rule process_game_data_not_dict(1) [where e = AttributeError]) simp
  have t3: "tracked_games s3 = tracked_games s2 @ [(KStr ''A2'', datetime_now w (tick s2))]"
    unfolding s3_def
    by (rule process_game_data_new(1) [OF free_game_new]) (simp add: t1 t2)
  have keys: "map fst (tracked_games (snd (check_epic_games w init))) = [KStr ''A1'', KStr ''A2'']"
    unfolding run by (simp add: t1 t2 t3)
  have hyp: "promotional_offers unhashable_free_game = Inr (JArr [JObj []]) \<and> truthy (JArr [JObj []]) \<and>
      py_get unhashable_free_game ''id'' JNull = Inr (JArr [JStr ''A1'']) \<and>
      py_hash (JArr [JStr ''A1'']) = Inl TypeError"
    by (simp add: unhashable_free_game_def promotional_offers_def)
  have bad: "(''Game processing error'', Some TypeError)
     \<in> set (errors (snd (check_epic_games (catalog_world [unhashable_free_game]) init)))"
    using inst2 hyp by blast
  have null: "py_get JNull ''id'' JNull = Inl AttributeError"
    by simp
  have ret: "fst (check_epic_games w init) = Inr ()"
    by (simp add: run)
  show ?thesis
    unfolding w_def [symmetric]
    using inst null ret keys bad by blast
qed

subsection \<open>C6: the monitoring task goes on\<close>





subsection \<open>C4: a game is announced once\<close>

text \<open>
  C4. Take a free record whose id is not tracked. The test \<^verbatim>\<open>game_id not in
  self.tracked_games\<close> is true before the record is processed, and false after it, also
  after any further records have been processed in between; processing the record again
  then changes nothing at all. And when two firings of \<^verbatim>\<open>monitor_games\<close> in a row both
  get this one record from Epic, \<^verbatim>\<open>send_game_alert\<close> is called once, and the store has
  one entry more than before, under the record's id.
\<close>

theorem dedup_is_idempotent:
  assumes "promotional_offers g = Inr v" and "truthy v"
    and "py_get g ''id'' JNull = Inr i" and "py_hash i = Inr k"
    and "k \<notin> set (map fst (tracked_games s))"
    and "\<And>n. session_get wc n epic_url = Some (Response 200 (Some d))"
    and "elements_of d = Inr (JArr [g])"
  shows "fst (not_in_tracked_games i s) = Inr True \<and>
     fst (not_in_tracked_games i
       (snd (py_for gs (\<lambda>h. process_game_data w' h p') (snd (process_game_data w g p s))))) = Inr False \<and>
     process_game_data w'' g p''
       (snd (py_for gs (\<lambda>h. process_game_data w' h p') (snd (process_game_data w g p s)))) =
       (Inr (), snd (py_for gs (\<lambda>h. process_game_data w' h p') (snd (process_game_data w g p s)))) \<and>
     alerts (snd (monitor_games wc (snd (monitor_games wc s)))) = alerts s @ [(g, ''epic_games'')] \<and>
     map fst (tracked_games (snd (monitor_games wc (snd (monitor_games wc s))))) =
       map fst (tracked_games s) @ [k]"
proof -
  define s1 where "s1 = snd (process_game_data w g p s)"
  define s2 where "s2 = snd (py_for gs (\<lambda>h. process_game_data w' h p') s1)"
  have "k \<in> set (map fst (tracked_games s1))"
    unfolding s1_def using process_game_data_new(1) [OF assms(1-5), of w p] by simp
  then have k2: "k \<in> set (map fst (tracked_games s2))"
    unfolding s2_def using py_for_keys [of s1 gs w' p'] by blast
  have first: "fst (not_in_tracked_games i s) = Inr True"
    using assms(5) by (simp add: not_in_tracked_games_run [OF assms(4)])
  have later: "fst (not_in_tracked_games i s2) = Inr False"
    using k2 by (simp add: not_in_tracked_games_run [OF assms(4)])
  have again: "process_game_data w'' g p'' s2 = (Inr (), s2)"
    by (rule process_game_data_tracked [OF assms(1) assms(3) assms(4) k2])
  define c0 where "c0 = s\<lparr>events := events s @ [Http_get epic_url], tick := Suc (tick s)\<rparr>"
  define c1 where "c1 = snd (monitor_games wc s)"
  define c2 where "c2 = c1\<lparr>events := events c1 @ [Http_get epic_url], tick := Suc (tick c1)\<rparr>"
  have resp: "session_get wc n epic_url = Some (Response 200 (Some d))" for n
    by (rule assms(6))
  have k0: "k \<notin> set (map fst (tracked_games c0))"
    using assms(5) by (simp add: c0_def)
  have t1: "tracked_games c1 = tracked_games s @ [(k, datetime_now wc (tick c0))]"
    unfolding c1_def
    using monitor_games_records(1) [OF resp _ _ assms(7), of s]
      process_game_data_new(1) [OF assms(1-4) k0, of wc "''epic_games''"]
    by (simp add: py_for_Cons_process py_for_Nil_process c0_def del: py_for.simps)
  have a1: "alerts c1 = alerts s @ [(g, ''epic_games'')]"
    unfolding c1_def
    using monitor_games_records(2) [OF resp _ _ assms(7), of s]
      process_game_data_new(2) [OF assms(1-4) k0, of wc "''epic_games''"]
    by (simp add: py_for_Cons_process py_for_Nil_process c0_def frame_simps del: py_for.simps)
  have kc2: "k \<in> set (map fst (tracked_games c2))"
    by (simp add: c2_def t1)
  have stay: "process_game_data wc g ''epic_games'' c2 = (Inr (), c2)"
    by (rule process_game_data_tracked [OF assms(1) assms(3) assms(4) kc2])
  have t2: "tracked_games (snd (monitor_games wc c1)) = tracked_games c1"
    using monitor_games_records(1) [OF resp _ _ assms(7), of c1] stay
    by (simp add: py_for_Cons_process py_for_Nil_process c2_def del: py_for.simps)
  have a2: "alerts (snd (monitor_games wc c1)) = alerts c1"
    using monitor_games_records(2) [OF resp _ _ assms(7), of c1] stay
    by (simp add: py_for_Cons_process py_for_Nil_process c2_def frame_simps del: py_for.simps)
  show ?thesis
    using first later again
    unfolding s2_def s1_def c1_def [symmetric]
    by (simp add: t1 t2 a1 a2)
qed

text \<open>Scenario B: the record \<^verbatim>\<open>A1\<close> in two firings, from the initial state.\<close>

theorem dedup_is_idempotent_witness:
  "fst (not_in_tracked_games (JStr ''A1'') init) = Inr True \<and>
   fst (not_in_tracked_games (JStr ''A1'')
     (snd (process_game_data (friendly None) (free_game ''A1'') ''epic_games'' init))) = Inr False \<and>
   alerts (snd (monitor_games (catalog_world [free_game ''A1''])
     (snd (monitor_games (catalog_world [free_game ''A1'']) init)))) =
       [(free_game ''A1'', ''epic_games'')] \<and>
   length (tracked_games (snd (monitor_games (catalog_world [free_game ''A1''])
     (snd (monitor_games (catalog_world [free_game ''A1'']) init))))) = 1"
proof -
  note inst = dedup_is_idempotent [where g = "free_game ''A1''" and v = "JArr [JObj []]"
      and i = "JStr ''A1''" and k = "KStr ''A1''" and s = init
      and wc = "catalog_world [free_game ''A1'']" and d = "catalog (JArr [free_game ''A1''])"
      and gs = "[]" and w = "friendly None" and p = "''epic_games''"
      and w' = "friendly None" and p' = "''epic_games''"
      and w'' = "friendly None" and p'' = "''steam''",
      OF free_game_new _ catalog_world_simps(1) elements_of_catalog]
  have fresh: "KStr ''A1'' \<notin> set (map fst (tracked_games init))"
    by (simp add: init_simps)
  have keys: "map fst (tracked_games (snd (monitor_games (catalog_world [free_game ''A1''])
     (snd (monitor_games (catalog_world [free_game ''A1'']) init))))) = [KStr ''A1'']"
    using inst [OF fresh] by (simp add: init_simps)
  have "length (map fst (tracked_games (snd (monitor_games (catalog_world [free_game ''A1''])
     (snd (monitor_games (catalog_world [free_game ''A1'']) init)))))) = 1"
    unfolding keys by simp
  then have size: "length (tracked_games (snd (monitor_games (catalog_world [free_game ''A1''])
     (snd (monitor_games (catalog_world [free_game ''A1'']) init))))) = 1"
    by simp
  show ?thesis
    using inst [OF fresh] size by (simp add: init_simps py_return_def)
qed

subsection \<open>C5: an alert that fails\<close>

text \<open>
  C5. Take a free record whose id is not tracked, and let its alert fail: processing it
  delivers no message. Processing it still returns normally, the id is tracked from then
  on, and \<^verbatim>\<open>send_game_alert\<close> was called once for it. When the same record comes again,
  after any other records, in any surroundings and for any platform, nothing changes at
  all: no second attempt is made.
\<close>

theorem failed_alert_keeps_the_entry:
  assumes "promotional_offers g = Inr v" and "truthy v"
    and "py_get g ''id'' JNull = Inr i" and "py_hash i = Inr k"
    and "k \<notin> set (map fst (tracked_games s))"
    and "sent (snd (process_game_data w g p s)) = sent s"
  shows "fst (process_game_data w g p s) = Inr () \<and>
     tracked_games (snd (process_game_data w g p s)) =
       tracked_games s @ [(k, datetime_now w (tick s))] \<and>
     alerts (snd (process_game_data w g p s)) = alerts s @ [(g, p)] \<and>
     process_game_data w'' g p''
       (snd (py_for gs (\<lambda>h. process_game_data w' h p') (snd (process_game_data w g p s)))) =
       (Inr (), snd (py_for gs (\<lambda>h. process_game_data w' h p') (snd (process_game_data w g p s))))"
proof -
  define s1 where "s1 = snd (process_game_data w g p s)"
  define s2 where "s2 = snd (py_for gs (\<lambda>h. process_game_data w' h p') s1)"
  have t1: "tracked_games s1 = tracked_games s @ [(k, datetime_now w (tick s))]"
    unfolding s1_def by (rule process_game_data_new(1) [OF assms(1-5)])
  have a1: "alerts s1 = alerts s @ [(g, p)]"
    unfolding s1_def by (rule process_game_data_new(2) [OF assms(1-5)])
  have "k \<in> set (map fst (tracked_games s1))"
    by (simp add: t1)
  then have "k \<in> set (map fst (tracked_games s2))"
    unfolding s2_def using py_for_keys [of s1 gs w' p'] by blast
  then have "process_game_data w'' g p'' s2 = (Inr (), s2)"
    by (rule process_game_data_tracked [OF assms(1) assms(3) assms(4)])
  then show ?thesis
    using t1 a1 unfolding s2_def s1_def by (simp add: process_game_data_total)
qed

text \<open>The theorem where the channel is not found: the record \<^verbatim>\<open>A1\<close>, from the initial
  state, and then again where everything works.\<close>

theorem failed_alert_keeps_the_entry_witness:
  "sent (snd (process_game_data no_channel (free_game ''A1'') ''epic_games'' init)) = sent init \<and>
   tracked_games (snd (process_game_data no_channel (free_game ''A1'') ''epic_games'' init)) =
     [(KStr ''A1'', 0)] \<and>
   alerts (snd (process_game_data no_channel (free_game ''A1'') ''epic_games'' init)) =
     [(free_game ''A1'', ''epic_games'')] \<and>
   process_game_data (friendly None) (free_game ''A1'') ''epic_games''
     (snd (process_game_data no_channel (free_game ''A1'') ''epic_games'' init)) =
     (Inr (), snd (process_game_data no_channel (free_game ''A1'') ''epic_games'' init))"
proof -
  have fresh: "KStr ''A1'' \<notin> set (map fst (tracked_games init))"
    by (simp add: init_simps)
  have failed: "sent (snd (process_game_data no_channel (free_game ''A1'') ''epic_games'' init)) = sent init"
    unfolding process_game_data_new_sent [OF free_game_new fresh]
    by (simp add: send_game_alert_no_channel [where c = 42] no_channel_simps frame_simps)
  show ?thesis
    using failed_alert_keeps_the_entry [OF free_game_new fresh failed,
        where gs = "[]" and w'' = "friendly None" and p'' = "''epic_games''"
        and w' = "friendly None" and p' = "''epic_games''"] failed
    by (simp add: init_simps no_channel_simps py_return_def)
qed

subsection \<open>C8: scenario A\<close>

text \<open>
  C8, as the code has it. The offers of a record are read under the key
  \<^verbatim>\<open>promotionalOffers\<close>. When Epic answers with the two records
  \<^verbatim>\<open>{id: A1, promotions: {promotionalOffers: [{}]}}\<close> and
  \<^verbatim>\<open>{id: A2, promotions: {promotionalOffers: []}}\<close> and no game is tracked yet, one firing
  of \<^verbatim>\<open>monitor_games\<close> calls \<^verbatim>\<open>send_game_alert\<close> once, for \<^verbatim>\<open>A1\<close> on Epic, and leaves one
  tracked game, \<^verbatim>\<open>A1\<close>.
\<close>

theorem scenario_A:
  assumes "session_get w (tick s) epic_url = Some r" and "status r = 200" and "body r = Some d"
    and "elements_of d = Inr (JArr [free_game ''A1'', no_offer_game ''A2''])"
    and "tracked_games s = []"
  shows "alerts (snd (monitor_games w s)) = alerts s @ [(free_game ''A1'', ''epic_games'')] \<and>
         map fst (tracked_games (snd (monitor_games w s))) = [KStr ''A1''] \<and>
         length (tracked_games (snd (monitor_games w s))) = 1"
proof -
  define s0 where "s0 = s\<lparr>events := events s @ [Http_get epic_url], tick := Suc (tick s)\<rparr>"
  define s1 where "s1 = snd (process_game_data w (free_game ''A1'') ''epic_games'' s0)"
  define s2 where "s2 = snd (process_game_data w (no_offer_game ''A2'') ''epic_games'' s1)"
  have fresh: "KStr ''A1'' \<notin> set (map fst (tracked_games s0))"
    by (simp add: s0_def assms(5))
  have t1: "tracked_games s1 = [(KStr ''A1'', datetime_now w (tick s0))]"
    unfolding s1_def using process_game_data_new(1) [OF free_game_new fresh, of w "''epic_games''"]
    by (simp add: s0_def assms(5))
  have a1: "alerts s1 = alerts s @ [(free_game ''A1'', ''epic_games'')]"
    unfolding s1_def using process_game_data_new(2) [OF free_game_new fresh, of w "''epic_games''"]
    by (simp add: s0_def frame_simps)
  have t2: "tracked_games s2 = tracked_games s1"
    unfolding s2_def by (rule process_game_data_not_free(1) [OF no_offers(1) no_offers(4)])
  have a2: "alerts s2 = alerts s1"
    unfolding s2_def by (rule process_game_data_not_free(2) [OF no_offers(1) no_offers(4)])
  have run: "snd (py_for [free_game ''A1'', no_offer_game ''A2'']
      (\<lambda>g. process_game_data w g ''epic_games'') s0) = s2"
    by (simp add: py_for_Cons_process py_for_Nil_process s1_def s2_def del: py_for.simps)
  show ?thesis
    using monitor_games_records(1,2) [OF assms(1-4)]
    unfolding s0_def [symmetric] run
    by (simp add: t1 t2 a1 a2)
qed

text \<open>The theorem from the initial state, where every request is answered with the two
  records.\<close>

theorem scenario_A_witness:
  "alerts (snd (monitor_games (catalog_world [free_game ''A1'', no_offer_game ''A2'']) init)) =
     [(free_game ''A1'', ''epic_games'')] \<and>
   map fst (tracked_games (snd (monitor_games (catalog_world [free_game ''A1'', no_offer_game ''A2'']) init))) =
     [KStr ''A1''] \<and>
   length (tracked_games (snd (monitor_games (catalog_world [free_game ''A1'', no_offer_game ''A2'']) init))) = 1"
  using scenario_A [OF catalog_world_simps(1) _ _ elements_of_catalog,
      of "[free_game ''A1'', no_offer_game ''A2'']" init]
  by (simp add: init_simps)

text \<open>
  C8 as stated fails: with the records written as the scenario writes them, under the
  key \<^verbatim>\<open>offers\<close>, the code finds no offer in either; no alert is called and no game is
  tracked.
\<close>

theorem scenario_A_counterexample:
  "alerts (snd (monitor_games (catalog_world [spec_free_game ''A1'', spec_no_offer_game ''A2'']) init)) = [] \<and>
   tracked_games (snd (monitor_games (catalog_world [spec_free_game ''A1'', spec_no_offer_game ''A2'']) init)) = []"
proof -
  define w where "w = catalog_world [spec_free_game ''A1'', spec_no_offer_game ''A2'']"
  define s0 where "s0 = init\<lparr>events := events init @ [Http_get epic_url], tick := Suc (tick init)\<rparr>"
  define s1 where "s1 = snd (process_game_data w (spec_free_game ''A1'') ''epic_games'' s0)"
  define s2 where "s2 = snd (process_game_data w (spec_no_offer_game ''A2'') ''epic_games'' s1)"
  have t1: "tracked_games s1 = tracked_games s0" and a1: "alerts s1 = alerts s0"
    unfolding s1_def
    by (rule process_game_data_not_free(1) [OF no_offers(2) no_offers(4)])
      (rule process_game_data_not_free(2) [OF no_offers(2) no_offers(4)])
  have t2: "tracked_games s2 = tracked_games s1" and a2: "alerts s2 = alerts s1"
    unfolding s2_def
    by (rule process_game_data_not_free(1) [OF no_offers(3) no_offers(4)])
      (rule process_game_data_not_free(2) [OF no_offers(3) no_offers(4)])
  have run: "snd (py_for [spec_free_game ''A1'', spec_no_offer_game ''A2'']
      (\<lambda>g. process_game_data w g ''epic_games'') s0) = s2"
    by (simp add: py_for_Cons_process py_for_Nil_process s1_def s2_def del: py_for.simps)
  have resp: "session_get w (tick init) epic_url =
      Some (Response 200 (Some (catalog (JArr [spec_free_game ''A1'', spec_no_offer_game ''A2'']))))"
    by (simp add: w_def catalog_world_simps)
  have rec: "tracked_games (snd (monitor_games w init)) = tracked_games s2"
    "alerts (snd (monitor_games w init)) = alerts s2"
    using monitor_games_records(1,2) [OF resp, where gs = "[spec_free_game ''A1'', spec_no_offer_game ''A2'']"
        and d = "catalog (JArr [spec_free_game ''A1'', spec_no_offer_game ''A2''])"]
    unfolding s0_def [symmetric] run
    by (simp_all add: elements_of_catalog)
  show ?thesis
    unfolding w_def [symmetric] rec
    by (simp add: t1 t2 a1 a2 s0_def alerts_simps init_simps)
qed

end
